theory Spec2Isabelle
  imports Complex_Main "HOL-Library.Sublist" "HOL-Library.Log_Nat"
begin

section \<open>The HAR analyzer of \<^verbatim>\<open>src/har-analyzer.js\<close>\<close>

text \<open>
  The class \<^verbatim>\<open>HARAnalyzer\<close> reads a parsed HAR trace (\<^verbatim>\<open>harFile.log.entries\<close>) and
  fills the fields of \<^verbatim>\<open>this.analysisReport\<close> in place. The embedding passes the report
  explicitly: every method takes the report and returns the updated one.

  JavaScript numbers are IEEE doubles. Timestamps (\<^verbatim>\<open>new Date(s).getTime()\<close>) are
  integers of milliseconds and byte counts are natural numbers; they and the differences
  of two timestamps are doubles as they are and are computed exactly. The remaining numbers
  (\<^verbatim>\<open>entry.time\<close> and what is computed from it) are reals, and every sum, difference
  and quotient the code computes on them is rounded to the nearest double (\<open>fadd\<close>,
  \<open>fsub\<close>, \<open>fdiv\<close> below). The numbers are finite: a result beyond the largest
  double, which the code would hold as \<^verbatim>\<open>Infinity\<close>, is outside this model.
\<close>

subsection \<open>Data\<close>

text \<open>
  One entry of \<^verbatim>\<open>log.entries\<close>, with the fields the analyzer reads.
  \<^verbatim>\<open>startedDateTime\<close> holds the value of \<^verbatim>\<open>new Date(entry.startedDateTime).getTime()\<close>;
  \<^verbatim>\<open>content_mimeType\<close> and \<^verbatim>\<open>content_size\<close> are \<^verbatim>\<open>entry.response.content.mimeType\<close> and
  \<^verbatim>\<open>entry.response.content.size\<close>, which a HAR file may leave out (\<open>None\<close>).
\<close>

record entry =
  startedDateTime :: int
  time :: real
  request_url :: string
  request_method :: string
  response_status :: int
  content_mimeType :: "string option"
  content_size :: "nat option"

text \<open>The six values of the variable \<^verbatim>\<open>resourceType\<close>.\<close>

datatype resourceType = Html | Css | Js | Image | Font | Other

text \<open>
  A template literal that interpolates a number is kept as its pieces, so that no
  number-to-string conversion of an arbitrary double has to be modelled.
\<close>

datatype piece = Str string | Num real

type_synonym template = "piece list"

record bottleneck =
  b_url :: string
  b_type :: resourceType
  b_time :: real
  b_size :: string
  b_startTime :: real
  b_issue :: string

record criticalPathItem =
  cp_type :: string
  cp_url :: string
  cp_time :: real
  cp_size :: string

text \<open>
  The two shapes of object pushed onto \<^verbatim>\<open>performanceGaps\<close>: a gap of the timeline, and
  the object with \<^verbatim>\<open>type: "Target Exceeded"\<close>.
\<close>

datatype performanceGap =
    Gap (gapStart: real) (gapEnd: real) (gapDuration: real)
        (beforeResource: string) (afterResource: string) (suggestion: template)
  | TargetExceeded (excess: real) (suggestion: template)

record optimization =
  opt_priority :: string
  opt_category :: string
  opt_suggestion :: template
  opt_impact :: string
  opt_action :: string

record breakdown =
  count :: nat
  totalSize :: nat
  totalTime :: real
  avgTime :: real
  totalSizeFormatted :: "string option"

record analysisReport =
  totalLoadTime :: real
  criticalPathItems :: "criticalPathItem list"
  largestContentfulPaint :: real
  firstContentfulPaint :: real
  timeToInteractive :: real
  performanceGaps :: "performanceGap list"
  optimizations :: "optimization list"
  resourceBreakdown :: "resourceType \<rightharpoonup> breakdown"
  bottlenecks :: "bottleneck list"

record timelineItem =
  tl_start :: real
  tl_end :: real
  tl_url :: string
  tl_time :: real

datatype error = TypeError | RangeError

text \<open>The report and the target set by the constructor.\<close>

definition initialReport :: analysisReport where
  "initialReport =
     \<lparr>totalLoadTime = 0, criticalPathItems = [], largestContentfulPaint = 0,
      firstContentfulPaint = 0, timeToInteractive = 0, performanceGaps = [],
      optimizations = [], resourceBreakdown = Map.empty, bottlenecks = []\<rparr>"

definition targetLoadTime :: real where
  "targetLoadTime = 2"

subsection \<open>Strings and numbers\<close>

text \<open>\<^verbatim>\<open>s.includes(t)\<close>: \<open>t\<close> occurs in \<open>s\<close> as a contiguous substring.\<close>

fun includesStr :: "string \<Rightarrow> string \<Rightarrow> bool" where
  "includesStr [] t = (t = [])"
| "includesStr (c # cs) t = (prefix t (c # cs) \<or> includesStr cs t)"

text \<open>\<^verbatim>\<open>Math.round\<close>: the nearest integer, a tie going up.\<close>

definition Math_round :: "real \<Rightarrow> int" where
  "Math_round x = \<lfloor>x + 1 / 2\<rfloor>"

text \<open>The integer nearest to a real, the even one at a tie.\<close>

definition roundTiesToEven :: "real \<Rightarrow> int" where
  "roundTiesToEven y =
     (let n = \<lfloor>y\<rfloor>
      in if y - real_of_int n < 1 / 2 then n
         else if 1 / 2 < y - real_of_int n then n + 1
         else if even n then n else n + 1)"

text \<open>
  The double nearest to a real: the multiple of the unit in the last place nearest to it,
  the one with an even significand at a tie. The unit is \<open>2 ^ (e - 52)\<close> for a number
  between \<open>2 ^ e\<close> and \<open>2 ^ (e + 1)\<close>, and \<open>2 ^ (- 1074)\<close> for the subnormal numbers
  below \<open>2 ^ (- 1022)\<close>.
\<close>

definition fl :: "real \<Rightarrow> real" where
  "fl x =
     (if x = 0 then 0
      else let e = max \<lfloor>log 2 \<bar>x\<bar>\<rfloor> (- 1022);
               ulp = 2 powr (real_of_int e - 52)
           in ulp * real_of_int (roundTiesToEven (x / ulp)))"

text \<open>
  The operators \<^verbatim>\<open>+\<close>, \<^verbatim>\<open>-\<close> and \<^verbatim>\<open>/\<close> on doubles: the exact result, rounded.
\<close>

definition fadd :: "real \<Rightarrow> real \<Rightarrow> real" where
  "fadd x y = fl (x + y)"

definition fsub :: "real \<Rightarrow> real \<Rightarrow> real" where
  "fsub x y = fl (x - y)"

definition fdiv :: "real \<Rightarrow> real \<Rightarrow> real" where
  "fdiv x y = fl (x / y)"

definition digit :: "nat \<Rightarrow> char" where
  "digit d = ''0123456789'' ! d"

fun showNat :: "nat \<Rightarrow> string" where
  "showNat n = (if n < 10 then [digit n] else showNat (n div 10) @ [digit (n mod 10)])"

text \<open>
  \<^verbatim>\<open>x.toFixed(2)\<close> picks the integer \<open>n\<close> with \<open>n / 100\<close> nearest to \<open>x\<close>, the larger one
  at a tie; \<open>toFixed2\<close> is that \<open>n\<close>. \<open>showHundredths n\<close> is the string of the number
  \<^verbatim>\<open>parseFloat\<close> reads back: \<open>n / 100\<close> written without trailing zeros.
\<close>

definition toFixed2 :: "real \<Rightarrow> nat" where
  "toFixed2 x = nat \<lfloor>x * 100 + 1 / 2\<rfloor>"

definition showHundredths :: "nat \<Rightarrow> string" where
  "showHundredths n =
     showNat (n div 100) @
     (if n mod 100 = 0 then []
      else if n mod 10 = 0 then CHR ''.'' # [digit (n mod 100 div 10)]
      else CHR ''.'' # [digit (n mod 100 div 10), digit (n mod 10)])"

subsection \<open>\<^verbatim>\<open>formatBytes\<close>\<close>

definition sizes :: "string list" where
  "sizes = [''Bytes'', ''KB'', ''MB'', ''GB'']"

text \<open>The index \<^verbatim>\<open>i = Math.floor(Math.log(bytes) / Math.log(k))\<close> with \<^verbatim>\<open>k = 1024\<close>.\<close>

definition unitIndex :: "nat \<Rightarrow> nat" where
  "unitIndex bytes = nat \<lfloor>ln (real bytes) / ln 1024\<rfloor>"

text \<open>
  \<^verbatim>\<open>sizes[i]\<close> past the end of the array is \<^verbatim>\<open>undefined\<close>, which the string
  concatenation writes as the word \<^verbatim>\<open>undefined\<close>.
\<close>

definition formatBytes :: "nat \<Rightarrow> string" where
  "formatBytes bytes =
     (if bytes = 0 then ''0 Bytes''
      else let i = unitIndex bytes in
        showHundredths (toFixed2 (real bytes / 1024 ^ i)) @ '' '' @
        (if i < length sizes then sizes ! i else ''undefined''))"

subsection \<open>\<^verbatim>\<open>analyzeRequest\<close>\<close>

text \<open>
  \<^verbatim>\<open>entry.response.content.mimeType || ""\<close> and \<^verbatim>\<open>entry.response.content.size || 0\<close>:
  a missing value, like the empty string and zero, gives the default.
\<close>

definition contentTypeOf :: "entry \<Rightarrow> string" where
  "contentTypeOf entry = (case content_mimeType entry of None \<Rightarrow> [] | Some m \<Rightarrow> m)"

definition sizeOf :: "entry \<Rightarrow> nat" where
  "sizeOf entry = (case content_size entry of None \<Rightarrow> 0 | Some n \<Rightarrow> n)"

text \<open>The chain of tests that sets \<^verbatim>\<open>resourceType\<close> (lines 83 to 88).\<close>

definition categorize :: "string \<Rightarrow> resourceType" where
  "categorize contentType =
     (if includesStr contentType ''text/html'' then Html
      else if includesStr contentType ''text/css'' then Css
      else if includesStr contentType ''javascript'' then Js
      else if includesStr contentType ''image/'' then Image
      else if includesStr contentType ''font/'' then Font
      else Other)"

text \<open>
  \<^verbatim>\<open>analyzeRequest(entry, index, startTime)\<close>; the parameter \<^verbatim>\<open>index\<close> is never read and
  is left out. The two \<^verbatim>\<open>push\<close> calls append to \<^verbatim>\<open>bottlenecks\<close>; the rest updates the
  entry of \<^verbatim>\<open>resourceBreakdown\<close> under the key \<^verbatim>\<open>resourceType\<close>, created on first use.
\<close>

definition analyzeRequest :: "entry \<Rightarrow> int \<Rightarrow> analysisReport \<Rightarrow> analysisReport" where
  "analyzeRequest entry startTime r =
     (let url = request_url entry;
          contentType = contentTypeOf entry;
          sz = sizeOf entry;
          t = time entry;
          relativeStartTime = real_of_int (startedDateTime entry - startTime);
          resourceType = categorize contentType;
          r1 = (if t > 100
                then r\<lparr>bottlenecks := bottlenecks r @
                       [\<lparr>b_url = take 100 url @ (if length url > 100 then ''...'' else []),
                         b_type = resourceType, b_time = t, b_size = formatBytes sz,
                         b_startTime = relativeStartTime, b_issue = ''Slow request''\<rparr>]\<rparr>
                else r);
          r2 = (if sz > 500 * 1024
                then r1\<lparr>bottlenecks := bottlenecks r1 @
                       [\<lparr>b_url = take 100 url @ (if length url > 100 then ''...'' else []),
                         b_type = resourceType, b_time = t, b_size = formatBytes sz,
                         b_startTime = relativeStartTime, b_issue = ''Large file size''\<rparr>]\<rparr>
                else r1);
          old = (case resourceBreakdown r2 resourceType of
                   None \<Rightarrow> \<lparr>count = 0, totalSize = 0, totalTime = 0, avgTime = 0,
                             totalSizeFormatted = None\<rparr>
                 | Some s \<Rightarrow> s);
          s1 = old\<lparr>count := count old + 1\<rparr>;
          s2 = s1\<lparr>totalSize := totalSize s1 + sz\<rparr>;
          s3 = s2\<lparr>totalTime := fadd (totalTime s2) t\<rparr>;
          s4 = s3\<lparr>avgTime := fdiv (totalTime s3) (real (count s3))\<rparr>
      in r2\<lparr>resourceBreakdown := (resourceBreakdown r2)(resourceType \<mapsto> s4)\<rparr>)"

subsection \<open>\<^verbatim>\<open>identifyCriticalPath\<close>\<close>

text \<open>The test of \<^verbatim>\<open>entries.find\<close>: the mime type is present, not empty, and has the marker.\<close>

definition isHtmlDocument :: "entry \<Rightarrow> bool" where
  "isHtmlDocument entry =
     (case content_mimeType entry of
        None \<Rightarrow> False
      | Some m \<Rightarrow> m \<noteq> [] \<and> includesStr m ''text/html'')"

text \<open>The test of \<^verbatim>\<open>entries.filter\<close>.\<close>

definition isCriticalResource :: "entry \<Rightarrow> bool" where
  "isCriticalResource entry =
     (let url = request_url entry; contentType = contentTypeOf entry
      in (includesStr contentType ''text/css'' \<or> includesStr contentType ''javascript'') \<and>
         \<not> includesStr url ''analytics'' \<and> \<not> includesStr url ''tracking'')"

text \<open>
  The loop over \<^verbatim>\<open>criticalResources.slice(0, 5)\<close>. Its body calls \<^verbatim>\<open>includes\<close> on
  \<^verbatim>\<open>entry.response.content.mimeType\<close> itself, which throws a \<^verbatim>\<open>TypeError\<close> when the
  field is missing.
\<close>

fun pushCriticalResources :: "entry list \<Rightarrow> analysisReport \<Rightarrow> error + analysisReport" where
  "pushCriticalResources [] r = Inr r"
| "pushCriticalResources (entry # rest) r =
     (case content_mimeType entry of
        None \<Rightarrow> Inl TypeError
      | Some m \<Rightarrow>
          pushCriticalResources rest
            (r\<lparr>criticalPathItems := criticalPathItems r @
                [\<lparr>cp_type = (if includesStr m ''css'' then ''Critical CSS'' else ''Critical JS''),
                  cp_url = take 80 (request_url entry) @ ''...'',
                  cp_time = time entry,
                  cp_size = formatBytes (sizeOf entry)\<rparr>]\<rparr>))"

text \<open>
  \<^verbatim>\<open>Array.prototype.sort\<close> is stable; with the comparator \<^verbatim>\<open>a.time - b.time\<close> it is the
  stable sort by the key \<^verbatim>\<open>time\<close>, which \<open>sort_key\<close> is.
\<close>

definition identifyCriticalPath :: "entry list \<Rightarrow> analysisReport \<Rightarrow> error + analysisReport" where
  "identifyCriticalPath entries r =
     (let htmlEntry = find isHtmlDocument entries;
          r1 = (case htmlEntry of
                  None \<Rightarrow> r
                | Some h \<Rightarrow>
                    r\<lparr>criticalPathItems := criticalPathItems r @
                       [\<lparr>cp_type = ''HTML Document'',
                         cp_url = take 80 (request_url h) @ ''...'',
                         cp_time = time h,
                         cp_size = formatBytes (sizeOf h)\<rparr>]\<rparr>);
          criticalResources = sort_key time (filter isCriticalResource entries)
      in pushCriticalResources (take 5 criticalResources) r1)"

subsection \<open>\<^verbatim>\<open>findPerformanceGaps\<close>\<close>

definition timelineOf :: "int \<Rightarrow> entry \<Rightarrow> timelineItem" where
  "timelineOf startTime entry =
     \<lparr>tl_start = real_of_int (startedDateTime entry - startTime),
      tl_end = fadd (real_of_int (startedDateTime entry - startTime)) (time entry),
      tl_url = request_url entry,
      tl_time = time entry\<rparr>"

text \<open>
  The loop \<^verbatim>\<open>for (let i = 1; i < timeline.length; i++)\<close> over the pairs
  \<^verbatim>\<open>timeline[i - 1]\<close>, \<^verbatim>\<open>timeline[i]\<close>, with the list of gaps pushed so far.
\<close>

fun gapLoop :: "timelineItem list \<Rightarrow> performanceGap list \<Rightarrow> performanceGap list" where
  "gapLoop (prev # next # rest) gaps =
     (let gap = fsub (tl_start next) (tl_end prev)
      in gapLoop (next # rest)
           (if gap > 50
            then gaps @
              [Gap (tl_end prev) (tl_start next) gap
                 (take 50 (tl_url prev) @ ''...'') (take 50 (tl_url next) @ ''...'')
                 (if gap > 200 then [Str ''Critical gap - investigate waterfall'']
                  else [Str ''Minor optimization opportunity''])]
            else gaps))"
| "gapLoop timeline gaps = gaps"

definition findPerformanceGaps :: "entry list \<Rightarrow> int \<Rightarrow> analysisReport \<Rightarrow> analysisReport" where
  "findPerformanceGaps entries startTime r =
     (let timeline = sort_key tl_start (map (timelineOf startTime) entries);
          r1 = r\<lparr>performanceGaps := gapLoop timeline (performanceGaps r)\<rparr>
      in if totalLoadTime r1 > targetLoadTime
         then let excess = fsub (totalLoadTime r1) targetLoadTime
              in r1\<lparr>performanceGaps := performanceGaps r1 @
                   [TargetExceeded excess
                      [Str ''Total load time exceeds '', Num targetLoadTime,
                       Str ''ms target by '', Num excess, Str ''ms'']]\<rparr>
         else r1)"

subsection \<open>\<^verbatim>\<open>analyzeResourceBreakdown\<close> and \<^verbatim>\<open>identifyBottlenecks\<close>\<close>

text \<open>
  The body of the loop over \<^verbatim>\<open>Object.keys(resourceBreakdown)\<close>: the average is
  rounded and the formatted total size is added.
\<close>

definition roundBreakdown :: "breakdown \<Rightarrow> breakdown" where
  "roundBreakdown breakdown =
     breakdown\<lparr>avgTime := real_of_int (Math_round (avgTime breakdown)),
                totalSizeFormatted := Some (formatBytes (totalSize breakdown))\<rparr>"

definition analyzeResourceBreakdown :: "analysisReport \<Rightarrow> analysisReport" where
  "analyzeResourceBreakdown r =
     r\<lparr>resourceBreakdown :=
         (\<lambda>type. map_option roundBreakdown (resourceBreakdown r type))\<rparr>"

text \<open>
  The comparator \<^verbatim>\<open>b.time - a.time\<close> sorts by decreasing \<^verbatim>\<open>time\<close>, entries of equal
  \<^verbatim>\<open>time\<close> keeping their order: the stable sort by the negated key.
\<close>

definition identifyBottlenecks :: "analysisReport \<Rightarrow> analysisReport" where
  "identifyBottlenecks r = r\<lparr>bottlenecks := sort_key (\<lambda>b. - b_time b) (bottlenecks r)\<rparr>"

subsection \<open>\<^verbatim>\<open>performAnalysis\<close>\<close>

text \<open>
  On an empty list \<^verbatim>\<open>entries[0]\<close> is \<^verbatim>\<open>undefined\<close> and reading its \<^verbatim>\<open>startedDateTime\<close>
  throws a \<^verbatim>\<open>TypeError\<close>. \<^verbatim>\<open>Math.max(...list)\<close> passes every element of the list as an
  argument of one call; an engine takes only so many arguments, a number that depends on
  the engine and its stack and is the parameter \<open>argumentLimit\<close>, and throws a
  \<^verbatim>\<open>RangeError\<close> on a longer list. Otherwise the maximum of the end times is the fold of
  \<open>max\<close> over them.
\<close>

fun performAnalysis :: "nat \<Rightarrow> entry list \<Rightarrow> analysisReport \<Rightarrow> error + analysisReport" where
  "performAnalysis argumentLimit [] r = Inl TypeError"
| "performAnalysis argumentLimit (first # rest) r =
     (let entries = first # rest;
          startTime = startedDateTime first
      in if argumentLimit < length entries then Inl RangeError
         else
           let endTime = fold max
                           (map (\<lambda>entry. fadd (real_of_int (startedDateTime entry)) (time entry))
                              rest)
                           (fadd (real_of_int (startedDateTime first)) (time first));
               r1 = r\<lparr>totalLoadTime := fsub endTime (real_of_int startTime)\<rparr>;
               r2 = fold (\<lambda>entry. analyzeRequest entry startTime) entries r1
           in case identifyCriticalPath entries r2 of
                Inl e \<Rightarrow> Inl e
              | Inr r3 \<Rightarrow>
                  Inr (identifyBottlenecks
                         (analyzeResourceBreakdown
                            (findPerformanceGaps entries startTime r3))))"

subsection \<open>\<^verbatim>\<open>generateOptimizationPlan\<close> and \<^verbatim>\<open>analyzeHARFile\<close>\<close>

definition loadingStrategy :: optimization where
  "loadingStrategy =
     \<lparr>opt_priority = ''MEDIUM'', opt_category = ''Loading Strategy'',
      opt_suggestion = [Str ''Optimize resource loading order and implement preloading''],
      opt_impact = ''Reduce loading gaps and improve perceived performance'',
      opt_action = ''Implement resource hints and optimize critical path''\<rparr>"

definition generateOptimizationPlan :: "analysisReport \<Rightarrow> analysisReport" where
  "generateOptimizationPlan r =
     (let imageBottlenecks = filter (\<lambda>b. b_type b = Image) (bottlenecks r);
          o1 = (if length imageBottlenecks > 0
                then [\<lparr>opt_priority = ''HIGH'', opt_category = ''Images'',
                       opt_suggestion =
                         [Str ''Convert images to WebP format and implement responsive sizing''],
                       opt_impact = ''Could save 60-80% on image file sizes'',
                       opt_action = ''Run the WebP converter script''\<rparr>]
                else []);
          largeFiles = filter (\<lambda>b. b_issue b = ''Large file size'') (bottlenecks r);
          o2 = (if length largeFiles > 0
                then o1 @
                     [\<lparr>opt_priority = ''HIGH'', opt_category = ''File Size'',
                       opt_suggestion = [Str ''Compress and optimize large files''],
                       opt_impact = ''Reduce bandwidth usage by 50-70%'',
                       opt_action = ''Implement gzip/brotli compression''\<rparr>]
                else o1);
          slowRequests = filter (\<lambda>b. b_issue b = ''Slow request'') (bottlenecks r);
          o3 = (if length slowRequests > 0
                then o2 @
                     [\<lparr>opt_priority = ''MEDIUM'', opt_category = ''Network'',
                       opt_suggestion = [Str ''Optimize slow requests with caching and CDN''],
                       opt_impact = ''Reduce request times by 40-60%'',
                       opt_action = ''Implement proper caching headers and CDN''\<rparr>]
                else o2);
          o4 = (if length (performanceGaps r) > 0 then o3 @ [loadingStrategy] else o3);
          o5 = (if totalLoadTime r > targetLoadTime
                then o4 @
                     [\<lparr>opt_priority = ''CRITICAL'', opt_category = ''Overall Performance'',
                       opt_suggestion =
                         [Str ''Total load time is '',
                          Num (real_of_int (Math_round (totalLoadTime r))),
                          Str ''ms, target is '', Num targetLoadTime, Str ''ms''],
                       opt_impact = ''Critical for user experience'',
                       opt_action = ''Implement all high-priority optimizations immediately''\<rparr>]
                else o4)
      in r\<lparr>optimizations := o5\<rparr>)"

text \<open>
  \<^verbatim>\<open>analyzeHARFile\<close> after the file is read and parsed: the analysis, the printed report
  (which changes nothing in \<^verbatim>\<open>analysisReport\<close>) and the optimization plan, on the report
  of a fresh analyzer. An exception is caught, reported, and ends the process with exit
  code 1: the result \<open>Inl\<close>.
\<close>

definition analyzeHARFile :: "nat \<Rightarrow> entry list \<Rightarrow> error + analysisReport" where
  "analyzeHARFile argumentLimit entries =
     (case performAnalysis argumentLimit entries initialReport of
        Inl e \<Rightarrow> Inl e
      | Inr r \<Rightarrow> Inr (generateOptimizationPlan r))"

section \<open>The result of the analysis in closed form\<close>

text \<open>
  The definitions of this section describe what the methods above compute; the lemmas of
  the next section prove that they do.
\<close>

text \<open>The resource class of an entry: the value \<^verbatim>\<open>analyzeRequest\<close> computes for \<^verbatim>\<open>resourceType\<close>.\<close>

definition classOf :: "entry \<Rightarrow> resourceType" where
  "classOf entry = categorize (contentTypeOf entry)"

text \<open>The object pushed onto \<^verbatim>\<open>bottlenecks\<close> for an entry, by its \<^verbatim>\<open>issue\<close>.\<close>

definition mkBottleneck :: "int \<Rightarrow> entry \<Rightarrow> string \<Rightarrow> bottleneck" where
  "mkBottleneck startTime entry issue =
     \<lparr>b_url = take 100 (request_url entry) @
              (if length (request_url entry) > 100 then ''...'' else []),
      b_type = classOf entry, b_time = time entry, b_size = formatBytes (sizeOf entry),
      b_startTime = real_of_int (startedDateTime entry - startTime), b_issue = issue\<rparr>"

text \<open>The objects one call of \<^verbatim>\<open>analyzeRequest\<close> pushes, in the order of the two tests.\<close>

definition requestBottlenecks :: "int \<Rightarrow> entry \<Rightarrow> bottleneck list" where
  "requestBottlenecks startTime entry =
     (if time entry > 100 then [mkBottleneck startTime entry ''Slow request''] else []) @
     (if sizeOf entry > 500 * 1024 then [mkBottleneck startTime entry ''Large file size''] else [])"

text \<open>The entry of \<^verbatim>\<open>resourceBreakdown\<close> after one more request of its class.\<close>

definition addRequest :: "entry \<Rightarrow> breakdown option \<Rightarrow> breakdown" where
  "addRequest entry old =
     (let s = (case old of
                 None \<Rightarrow> \<lparr>count = 0, totalSize = 0, totalTime = 0, avgTime = 0,
                           totalSizeFormatted = None\<rparr>
               | Some s \<Rightarrow> s)
      in s\<lparr>count := count s + 1, totalSize := totalSize s + sizeOf entry,
            totalTime := fadd (totalTime s) (time entry),
            avgTime := fdiv (fadd (totalTime s) (time entry)) (real (count s + 1))\<rparr>)"

text \<open>The breakdown after the requests of a list, one after the other.\<close>

fun addRequests :: "entry list \<Rightarrow> (resourceType \<rightharpoonup> breakdown) \<Rightarrow> (resourceType \<rightharpoonup> breakdown)" where
  "addRequests [] m = m"
| "addRequests (e # es) m = addRequests es (m(classOf e \<mapsto> addRequest e (m (classOf e))))"

text \<open>The critical-path item of the HTML document.\<close>

definition htmlItem :: "entry \<Rightarrow> criticalPathItem" where
  "htmlItem h =
     \<lparr>cp_type = ''HTML Document'', cp_url = take 80 (request_url h) @ ''...'',
      cp_time = time h, cp_size = formatBytes (sizeOf h)\<rparr>"

text \<open>The critical-path item of a CSS or JavaScript resource.\<close>

definition criticalItem :: "entry \<Rightarrow> criticalPathItem" where
  "criticalItem entry =
     \<lparr>cp_type = (if includesStr (contentTypeOf entry) ''css'' then ''Critical CSS''
                 else ''Critical JS''),
      cp_url = take 80 (request_url entry) @ ''...'',
      cp_time = time entry, cp_size = formatBytes (sizeOf entry)\<rparr>"

text \<open>The items \<^verbatim>\<open>identifyCriticalPath\<close> pushes.\<close>

definition criticalPath :: "entry list \<Rightarrow> criticalPathItem list" where
  "criticalPath entries =
     (case find isHtmlDocument entries of None \<Rightarrow> [] | Some h \<Rightarrow> [htmlItem h]) @
     map criticalItem (take 5 (sort_key time (filter isCriticalResource entries)))"

text \<open>The object pushed for the gap between two neighbours of the timeline.\<close>

definition mkGap :: "timelineItem \<Rightarrow> timelineItem \<Rightarrow> performanceGap" where
  "mkGap prev next =
     Gap (tl_end prev) (tl_start next) (fsub (tl_start next) (tl_end prev))
       (take 50 (tl_url prev) @ ''...'') (take 50 (tl_url next) @ ''...'')
       (if fsub (tl_start next) (tl_end prev) > 200
        then [Str ''Critical gap - investigate waterfall'']
        else [Str ''Minor optimization opportunity''])"

text \<open>The gaps of a timeline: the neighbouring pairs more than 50 ms apart, in order.\<close>

definition timelineGaps :: "timelineItem list \<Rightarrow> performanceGap list" where
  "timelineGaps ts =
     map (\<lambda>(prev, next). mkGap prev next)
       (filter (\<lambda>(prev, next). fsub (tl_start next) (tl_end prev) > 50) (zip ts (tl ts)))"

text \<open>The object with \<^verbatim>\<open>type: "Target Exceeded"\<close>, pushed when the total exceeds the target.\<close>

definition targetExceeded :: "real \<Rightarrow> performanceGap list" where
  "targetExceeded t =
     (if t > targetLoadTime
      then [TargetExceeded (fsub t targetLoadTime)
              [Str ''Total load time exceeds '', Num targetLoadTime,
               Str ''ms target by '', Num (fsub t targetLoadTime), Str ''ms'']]
      else [])"

text \<open>The time at which a request ends: \<^verbatim>\<open>new Date(entry.startedDateTime).getTime() + entry.time\<close>.\<close>

definition endTimestamp :: "entry \<Rightarrow> real" where
  "endTimestamp entry = fadd (real_of_int (startedDateTime entry)) (time entry)"

text \<open>The report after \<^verbatim>\<open>performAnalysis\<close> on a list with a first entry, field by field.\<close>

definition analysisResult :: "entry list \<Rightarrow> analysisReport \<Rightarrow> analysisReport" where
  "analysisResult es r =
     r\<lparr>totalLoadTime :=
         fsub (Max (endTimestamp ` set es)) (real_of_int (startedDateTime (hd es))),
       criticalPathItems := criticalPathItems r @ criticalPath es,
       performanceGaps := performanceGaps r @
         timelineGaps (sort_key tl_start (map (timelineOf (startedDateTime (hd es))) es)) @
         targetExceeded
           (fsub (Max (endTimestamp ` set es)) (real_of_int (startedDateTime (hd es)))),
       resourceBreakdown :=
         (\<lambda>c. map_option roundBreakdown (addRequests es (resourceBreakdown r) c)),
       bottlenecks :=
         sort_key (\<lambda>b. - b_time b)
           (bottlenecks r @ concat (map (requestBottlenecks (startedDateTime (hd es))) es))\<rparr>"

subsection \<open>Resource classes and example traces\<close>

text \<open>The six resource classes, each once.\<close>

definition allTypes :: "resourceType list" where
  "allTypes = [Html, Css, Js, Image, Font, Other]"

text \<open>The \<^verbatim>\<open>count\<close> of a class in a breakdown, zero for a class without an entry.\<close>

definition countOf :: "(resourceType \<rightharpoonup> breakdown) \<Rightarrow> resourceType \<Rightarrow> nat" where
  "countOf m c = (case m c of None \<Rightarrow> 0 | Some s \<Rightarrow> count s)"

text \<open>
  Every entry of a breakdown has a positive \<^verbatim>\<open>count\<close> and, as its average, the quotient
  of its total time and its count: what holds while \<^verbatim>\<open>analyzeRequest\<close> runs, before
  \<^verbatim>\<open>analyzeResourceBreakdown\<close> rounds.
\<close>

definition avgExact :: "(resourceType \<rightharpoonup> breakdown) \<Rightarrow> bool" where
  "avgExact m =
     (\<forall>c s. m c = Some s \<longrightarrow>
        0 < count s \<and> avgTime s = fdiv (totalTime s) (real (count s)))"

text \<open>A GET request answered with status 200, for the example traces.\<close>

definition request :: "int \<Rightarrow> real \<Rightarrow> string \<Rightarrow> string \<Rightarrow> nat \<Rightarrow> entry" where
  "request started t u mime sz =
     \<lparr>startedDateTime = started, time = t, request_url = u, request_method = ''GET'',
      response_status = 200, content_mimeType = Some mime, content_size = Some sz\<rparr>"

text \<open>
  The trace of scenario A of the specification: an HTML document from 0 ms to 50 ms and a
  stylesheet from 10 ms to 40 ms.
\<close>

definition scenarioA :: "entry list" where
  "scenarioA =
     [request 0 50 ''http://h.test/'' ''text/html'' 20480,
      request 10 30 ''http://h.test/main.css'' ''text/css'' 5120]"

text \<open>Two stylesheets that take 1 ms and 2 ms.\<close>

definition twoStylesheets :: "entry list" where
  "twoStylesheets =
     [request 0 1 ''http://h.test/a.css'' ''text/css'' 100,
      request 0 2 ''http://h.test/b.css'' ''text/css'' 100]"

subsection \<open>Offsets from the earliest start\<close>

text \<open>
  The offsets as the specification words them: the start of a record relative to the
  minimum start timestamp of the whole trace, and its end that much later plus its time.
\<close>

definition minStart :: "entry list \<Rightarrow> int" where
  "minStart es = Min (startedDateTime ` set es)"

definition startOffsetMs :: "entry list \<Rightarrow> entry \<Rightarrow> real" where
  "startOffsetMs es e = real_of_int (startedDateTime e - minStart es)"

definition endOffsetMs :: "entry list \<Rightarrow> entry \<Rightarrow> real" where
  "endOffsetMs es e = fadd (startOffsetMs es e) (time e)"

text \<open>
  A trace whose first entry starts last: a script at 100 ms, listed before the document
  at 0 ms, each taking 150 ms.
\<close>

definition lateFirst :: "entry list" where
  "lateFirst =
     [request 100 150 ''http://h.test/app.js'' ''application/javascript'' 100,
      request 0 150 ''http://h.test/'' ''text/html'' 100]"

text \<open>
  A trace in the order of its start timestamps: the document at 0 ms for 50 ms, then a
  script at 10 ms that takes 150 ms.
\<close>

definition slowScript :: "entry list" where
  "slowScript =
     [request 0 50 ''http://h.test/'' ''text/html'' 20480,
      request 10 150 ''http://h.test/app.js'' ''application/javascript'' 100]"

text \<open>
  Scenario C of the specification: one request of 150 ms and \<open>600 * 1024\<close> bytes.
\<close>

definition scenarioC :: "entry list" where
  "scenarioC = [request 0 150 ''http://h.test/big.js'' ''application/javascript'' (600 * 1024)]"

text \<open>
  Scenario B of the specification: the first request ends at 100 ms and the second starts
  at 400 ms.
\<close>

definition scenarioB :: "entry list" where
  "scenarioB =
     [request 0 100 ''http://h.test/'' ''text/html'' 20480,
      request 400 30 ''http://h.test/main.css'' ''text/css'' 5120]"

subsection \<open>The critical path as the specification words it\<close>

text \<open>
  The html record with the smallest start among the html records of the trace (the first
  of them at a tie), if there is one.
\<close>

definition earliestHtml :: "entry list \<Rightarrow> entry option" where
  "earliestHtml es =
     (case filter (\<lambda>e. classOf e = Html) es of
        [] \<Rightarrow> None
      | h # hs \<Rightarrow> Some (arg_min_list startedDateTime (h # hs)))"

text \<open>The test on the URL: neither \<^verbatim>\<open>analytics\<close> nor \<^verbatim>\<open>tracking\<close> occurs in it.\<close>

definition urlNotExcluded :: "entry \<Rightarrow> bool" where
  "urlNotExcluded e =
     (\<not> includesStr (request_url e) ''analytics'' \<and> \<not> includesStr (request_url e) ''tracking'')"

text \<open>
  The earliest html record, followed by the records of class css or js with a URL that
  is not excluded, sorted by ascending time, the first five of them.
\<close>

definition specCriticalPath :: "entry list \<Rightarrow> criticalPathItem list" where
  "specCriticalPath es =
     (case earliestHtml es of None \<Rightarrow> [] | Some h \<Rightarrow> [htmlItem h]) @
     map criticalItem
       (take 5 (sort_key time
          (filter (\<lambda>e. (classOf e = Css \<or> classOf e = Js) \<and> urlNotExcluded e) es)))"

text \<open>Two html documents, the one that starts later listed first.\<close>

definition twoDocuments :: "entry list" where
  "twoDocuments =
     [request 100 20 ''http://h.test/b'' ''text/html'' 100,
      request 0 20 ''http://h.test/a'' ''text/html'' 100]"

text \<open>One document whose mime type names both \<^verbatim>\<open>text/html\<close> and \<^verbatim>\<open>javascript\<close>.\<close>

definition scriptedDocument :: "entry list" where
  "scriptedDocument = [request 0 20 ''http://h.test/'' ''text/html+javascript'' 100]"

text \<open>
  A page load in the order of the start timestamps: the document, a stylesheet, a script
  and an analytics script.
\<close>

definition pageLoad :: "entry list" where
  "pageLoad =
     [request 0 50 ''http://h.test/'' ''text/html'' 20480,
      request 10 40 ''http://h.test/app.js'' ''application/javascript'' 100,
      request 20 30 ''http://h.test/main.css'' ''text/css'' 5120,
      request 30 5 ''http://h.test/analytics.js'' ''application/javascript'' 100]"

subsection \<open>Example traces of one request\<close>

text \<open>One request of 10 ms, above the target of 2 ms, and one of 1 ms, below it.\<close>

definition singleRequest :: "entry list" where
  "singleRequest = [request 0 10 ''http://h.test/'' ''text/html'' 100]"

definition quickRequest :: "entry list" where
  "quickRequest = [request 0 1 ''http://h.test/'' ''text/html'' 100]"

subsection \<open>Example traces whose numbers are rounded\<close>

text \<open>
  A document that ends just before 1 ms and a stylesheet that starts at 51 ms; two
  stylesheets of 0.5 ms and just below 0.5 ms; and one request of 123.456 ms at a
  timestamp of the year 2024.
\<close>

definition roundedGap :: "entry list" where
  "roundedGap =
     [request 0 (1 - 1 / 2 ^ 53) ''http://h.test/'' ''text/html'' 100,
      request 51 10 ''http://h.test/main.css'' ''text/css'' 100]"

definition roundedTotal :: "entry list" where
  "roundedTotal =
     [request 0 (1 / 2) ''http://h.test/a.css'' ''text/css'' 100,
      request 0 (1 / 2 - 1 / 2 ^ 54) ''http://h.test/b.css'' ''text/css'' 100]"

definition epochRequest :: "entry list" where
  "epochRequest = [request 1704067200000 (15432 / 125) ''http://h.test/'' ''text/html'' 100]"

section \<open>Properties\<close>

subsection \<open>The methods in closed form\<close>

lemma analyzeRequest_eq:
  "analyzeRequest e st r =
     r\<lparr>bottlenecks := bottlenecks r @ requestBottlenecks st e,
       resourceBreakdown := (resourceBreakdown r)(classOf e \<mapsto> addRequest e (resourceBreakdown r (classOf e)))\<rparr>"
  by (simp add: analyzeRequest_def Let_def requestBottlenecks_def mkBottleneck_def classOf_def
      addRequest_def split: option.split)

lemma fold_analyzeRequest:
  "fold (\<lambda>e. analyzeRequest e st) es r =
     r\<lparr>bottlenecks := bottlenecks r @ concat (map (requestBottlenecks st) es),
       resourceBreakdown := addRequests es (resourceBreakdown r)\<rparr>"
proof (induction es arbitrary: r)
  case Nil
  then show ?case by simp
next
  case (Cons e es)
  show ?case by (simp add: Cons.IH) (simp add: analyzeRequest_eq fun_upd_def)
qed

lemma isCriticalResource_mimeType:
  "isCriticalResource e \<Longrightarrow> content_mimeType e = Some (contentTypeOf e)"
  by (cases "content_mimeType e") (simp_all add: isCriticalResource_def contentTypeOf_def)

lemma pushCriticalResources_eq:
  "\<forall>e\<in>set es. isCriticalResource e \<Longrightarrow>
   pushCriticalResources es r =
     Inr (r\<lparr>criticalPathItems := criticalPathItems r @ map criticalItem es\<rparr>)"
proof (induction es arbitrary: r)
  case Nil
  then show ?case by simp
next
  case (Cons e es)
  then have m: "content_mimeType e = Some (contentTypeOf e)"
    by (simp add: isCriticalResource_mimeType)
  from Cons.prems have "\<forall>e\<in>set es. isCriticalResource e" by simp
  then show ?case by (simp add: m Cons.IH criticalItem_def)
qed

lemma identifyCriticalPath_eq:
  "identifyCriticalPath es r =
     Inr (r\<lparr>criticalPathItems := criticalPathItems r @ criticalPath es\<rparr>)"
proof -
  define cs where "cs = take 5 (sort_key time (filter isCriticalResource es))"
  have "set cs \<subseteq> set (sort_key time (filter isCriticalResource es))"
    unfolding cs_def by (rule set_take_subset)
  then have crit: "\<forall>e\<in>set cs. isCriticalResource e" by auto
  have push: "pushCriticalResources cs r' =
      Inr (r'\<lparr>criticalPathItems := criticalPathItems r' @ map criticalItem cs\<rparr>)" for r'
    using crit by (rule pushCriticalResources_eq)
  have unfold: "identifyCriticalPath es r =
      pushCriticalResources cs
        (case find isHtmlDocument es of
           None \<Rightarrow> r
         | Some h \<Rightarrow> r\<lparr>criticalPathItems := criticalPathItems r @ [htmlItem h]\<rparr>)"
    by (simp only: identifyCriticalPath_def Let_def cs_def htmlItem_def)
  show ?thesis
  proof (cases "find isHtmlDocument es")
    case None
    then show ?thesis
      by (simp add: unfold push criticalPath_def cs_def [symmetric])
  next
    case (Some h)
    then show ?thesis
      by (simp add: unfold push criticalPath_def cs_def [symmetric])
  qed
qed

lemma gapLoop_eq: "gapLoop ts gaps = gaps @ timelineGaps ts"
  by (induction ts gaps rule: gapLoop.induct)
     (simp_all add: timelineGaps_def mkGap_def Let_def)

lemma findPerformanceGaps_eq:
  "findPerformanceGaps es st r =
     r\<lparr>performanceGaps := performanceGaps r @
          timelineGaps (sort_key tl_start (map (timelineOf st) es)) @
          targetExceeded (totalLoadTime r)\<rparr>"
  by (simp add: findPerformanceGaps_def Let_def gapLoop_eq targetExceeded_def)

lemma fold_max_Max:
  "fold max (map f rest) (f first) = Max (f ` set (first # rest))"
  for f :: "'a \<Rightarrow> real"
  using Max.set_eq_fold [of "f first" "map f rest"] by simp

lemma performAnalysis_eq:
  assumes "es \<noteq> []" and "length es \<le> maxArgs"
  shows "performAnalysis maxArgs es r = Inr (analysisResult es r)"
proof -
  from assms obtain first rest where es: "es = first # rest" by (cases es) auto
  define st where "st = startedDateTime (hd es)"
  define total where "total = fsub (Max (endTimestamp ` set es)) (real_of_int st)"
  have first: "startedDateTime first = st" by (simp add: st_def es)
  have m: "fsub
      (fold max
         (map (\<lambda>entry. fadd (real_of_int (startedDateTime entry)) (time entry)) rest)
         (fadd (real_of_int st) (time first)))
      (real_of_int st) = total"
    using fold_max_Max
      [of "\<lambda>entry. fadd (real_of_int (startedDateTime entry)) (time entry)" rest first]
    by (simp add: endTimestamp_def [abs_def] total_def first es)
  have len: "\<not> maxArgs < length (first # rest)" using assms(2) by (simp add: es)
  have "performAnalysis maxArgs (first # rest) r =
      (case identifyCriticalPath (first # rest)
              (fold (\<lambda>entry. analyzeRequest entry st) (first # rest)
                 (r\<lparr>totalLoadTime := total\<rparr>)) of
         Inl e \<Rightarrow> Inl e
       | Inr r3 \<Rightarrow>
           Inr (identifyBottlenecks
                  (analyzeResourceBreakdown (findPerformanceGaps (first # rest) st r3))))"
    by (simp only: performAnalysis.simps Let_def first m len if_False)
  then have "performAnalysis maxArgs es r =
      (case identifyCriticalPath es
              (fold (\<lambda>entry. analyzeRequest entry st) es (r\<lparr>totalLoadTime := total\<rparr>)) of
         Inl e \<Rightarrow> Inl e
       | Inr r3 \<Rightarrow>
           Inr (identifyBottlenecks (analyzeResourceBreakdown (findPerformanceGaps es st r3))))"
    by (simp only: es)
  also have "\<dots> = Inr (analysisResult es r)"
    unfolding fold_analyzeRequest identifyCriticalPath_eq findPerformanceGaps_eq
    by (simp add: analyzeResourceBreakdown_def identifyBottlenecks_def analysisResult_def
        st_def total_def)
  finally show ?thesis .
qed

lemma performAnalysis_too_long:
  "es \<noteq> [] \<Longrightarrow> maxArgs < length es \<Longrightarrow> performAnalysis maxArgs es r = Inl RangeError"
  by (cases es) (simp_all add: Let_def)

lemma performAnalysis_InrD:
  assumes "performAnalysis maxArgs es r = Inr r'"
  shows "es \<noteq> [] \<and> length es \<le> maxArgs \<and> r' = analysisResult es r"
proof (cases "es = []")
  case True
  with assms show ?thesis by simp
next
  case False
  show ?thesis
  proof (cases "maxArgs < length es")
    case True
    with False assms show ?thesis by (simp add: performAnalysis_too_long)
  next
    case False
    with \<open>es \<noteq> []\<close> assms show ?thesis by (simp add: performAnalysis_eq)
  qed
qed

subsection \<open>Doubles that need no rounding\<close>

text \<open>
  A number \<open>m * 2 ^ k\<close> with \<open>\<bar>m\<bar> < 2 ^ 53\<close> and \<open>k \<ge> - 1074\<close> is a double, and rounding
  leaves it as it is; so do the integers below \<open>2 ^ 53\<close> and their halves.
\<close>

lemma roundTiesToEven_of_int [simp]: "roundTiesToEven (real_of_int z) = z"
  by (simp add: roundTiesToEven_def)

lemma fl_representable:
  assumes x: "x = real_of_int m * 2 powr real_of_int k"
    and m: "\<bar>m\<bar> < 2 ^ 53" and k: "- 1074 \<le> k"
  shows "fl x = x"
proof (cases "m = 0")
  case True
  then show ?thesis by (simp add: x fl_def)
next
  case False
  then have x0: "x \<noteq> 0" by (simp add: x)
  define e where "e = max \<lfloor>log 2 \<bar>x\<bar>\<rfloor> (- 1022)"
  have "\<bar>x\<bar> = real_of_int \<bar>m\<bar> * 2 powr real_of_int k"
    by (simp add: x abs_mult)
  also have "\<dots> < 2 ^ 53 * 2 powr real_of_int k"
  proof -
    from m have "real_of_int \<bar>m\<bar> < real_of_int (2 ^ 53)" by (simp only: of_int_less_iff)
    then show ?thesis by simp
  qed
  also have "\<dots> = 2 powr (real_of_int k + 53)"
    by (simp add: powr_add powr_realpow [symmetric])
  finally have "\<bar>x\<bar> < 2 powr (real_of_int k + 53)" .
  then have "log 2 \<bar>x\<bar> < real_of_int k + 53"
    using x0 by (simp add: log_less_iff)
  then have "log 2 \<bar>x\<bar> < real_of_int (k + 53)" by simp
  then have "\<lfloor>log 2 \<bar>x\<bar>\<rfloor> < k + 53" by (simp only: floor_less_iff)
  with k have e: "e \<le> k + 52" by (simp add: e_def)
  define j where "j = nat (k + 52 - e)"
  from e have j: "int j = k + 52 - e" by (simp add: j_def)
  have p: "2 powr real_of_int k = 2 powr (real_of_int e - 52) * 2 ^ j"
  proof -
    have "real_of_int k = (real_of_int e - 52) + real j"
      using j by (simp add: of_int_eq_iff [symmetric, where 'a = real] del: of_int_eq_iff)
    then show ?thesis by (simp add: powr_add powr_realpow)
  qed
  have q: "x / 2 powr (real_of_int e - 52) = real_of_int (m * 2 ^ j)"
    by (simp add: x p)
  have "fl x = 2 powr (real_of_int e - 52) *
      real_of_int (roundTiesToEven (x / 2 powr (real_of_int e - 52)))"
    using x0 by (simp add: fl_def Let_def e_def)
  also have "\<dots> = 2 powr (real_of_int e - 52) * real_of_int (m * 2 ^ j)"
    by (simp only: q roundTiesToEven_of_int)
  also have "\<dots> = x" by (simp add: x p)
  finally show ?thesis .
qed

lemma fl_of_int: "\<bar>n\<bar> < 2 ^ 53 \<Longrightarrow> fl (real_of_int n) = real_of_int n"
  using fl_representable [of "real_of_int n" n 0] by simp

lemma fl_dyadic:
  assumes "\<bar>m\<bar> < 2 ^ 53" and "n \<le> 1074"
  shows "fl (real_of_int m / 2 ^ n) = real_of_int m / 2 ^ n"
proof (rule fl_representable [where m = m and k = "- int n"])
  have "2 powr real_of_int (- int n) = 1 / 2 ^ n"
    by (simp add: powr_minus powr_realpow divide_inverse)
  then show "real_of_int m / 2 ^ n = real_of_int m * 2 powr real_of_int (- int n)" by simp
  show "\<bar>m\<bar> < 2 ^ 53" by (rule assms(1))
  show "- 1074 \<le> - int n" using assms(2) by simp
qed

lemma fl_of_int_half: "\<bar>n\<bar> < 2 ^ 53 \<Longrightarrow> fl (real_of_int n / 2) = real_of_int n / 2"
  using fl_dyadic [of n 1] by simp

lemma fl_zero [simp]: "fl 0 = 0" by (simp add: fl_def)
lemma fl_one: "fl 1 = 1" using fl_of_int [of 1] by simp
lemma fl_numeral: "numeral n < (2::int) ^ 53 \<Longrightarrow> fl (numeral n) = numeral n"
  using fl_of_int [of "numeral n"] by simp
lemma fl_neg_numeral: "numeral n < (2::int) ^ 53 \<Longrightarrow> fl (- numeral n) = - numeral n"
  using fl_of_int [of "- numeral n"] by simp
lemma fl_numeral_half: "numeral n < (2::int) ^ 53 \<Longrightarrow> fl (numeral n / 2) = numeral n / 2"
  using fl_of_int_half [of "numeral n"] by simp

lemma fl_one_half: "fl (1 / 2) = 1 / 2"
  using fl_of_int_half [of 1] by simp

lemmas fl_exact = fl_zero fl_one fl_one_half fl_numeral fl_neg_numeral fl_numeral_half

subsection \<open>Sums and differences that are rounded\<close>

text \<open>
  A number between \<open>2 ^ 52 / 2 ^ n\<close> and \<open>2 ^ 53 / 2 ^ n\<close> is rounded to a multiple of
  \<open>1 / 2 ^ n\<close>. Three cases: a sum of two times that rounds up to 1 at a tie; a
  difference that rounds down to 50; and a time of 123.456 ms added to and subtracted from
  a timestamp of the year 2024, where the doubles are \<open>1 / 4096\<close> apart, which comes back
  as 123.4560546875.
\<close>

lemma fl_normal:
  assumes "2 powr real_of_int e \<le> \<bar>x\<bar>" and "\<bar>x\<bar> < 2 powr (real_of_int e + 1)"
    and "- 1022 \<le> e"
  shows "fl x = 2 powr (real_of_int e - 52) *
           real_of_int (roundTiesToEven (x / 2 powr (real_of_int e - 52)))"
proof -
  from assms(1) have pos: "0 < \<bar>x\<bar>"
    by (smt (verit) powr_gt_zero)
  then have x0: "x \<noteq> 0" by simp
  have "real_of_int e \<le> log 2 \<bar>x\<bar>"
    using assms(1) pos by (simp add: le_log_iff)
  moreover have "log 2 \<bar>x\<bar> < real_of_int e + 1"
    using assms(2) pos by (simp add: log_less_iff)
  ultimately have "\<lfloor>log 2 \<bar>x\<bar>\<rfloor> = e" by (simp add: floor_eq_iff)
  with assms(3) x0 show ?thesis by (simp add: fl_def Let_def max_def)
qed

lemma fl_scaled:
  assumes x: "2 ^ 52 \<le> \<bar>x\<bar> * 2 ^ n" "\<bar>x\<bar> * 2 ^ n < 2 ^ 53" and n: "n \<le> 1074"
  shows "fl x = real_of_int (roundTiesToEven (x * 2 ^ n)) / 2 ^ n"
proof -
  define e where "e = 52 - int n"
  have u: "2 powr (real_of_int e - 52) = 1 / 2 ^ n"
  proof -
    have "real_of_int e - 52 = - real n" by (simp add: e_def)
    then show ?thesis by (simp add: powr_minus powr_realpow divide_inverse)
  qed
  have lo: "2 powr real_of_int e = 2 ^ 52 / 2 ^ n"
  proof -
    have "2 powr real_of_int e = 2 powr ((real_of_int e - 52) + 52)" by simp
    also have "\<dots> = 2 powr (real_of_int e - 52) * 2 powr 52" by (rule powr_add)
    also have "(2::real) powr 52 = 2 ^ 52"
      using powr_realpow [of 2 52] by simp
    finally show ?thesis by (simp add: u)
  qed
  have hi: "2 powr (real_of_int e + 1) = 2 ^ 53 / 2 ^ n"
  proof -
    have "2 powr (real_of_int e + 1) = 2 powr real_of_int e * 2 powr 1" by (rule powr_add)
    then show ?thesis by (simp add: lo)
  qed
  have "fl x = 2 powr (real_of_int e - 52) *
           real_of_int (roundTiesToEven (x / 2 powr (real_of_int e - 52)))"
  proof (rule fl_normal)
    have "2 ^ 52 / 2 ^ n \<le> \<bar>x\<bar>" using x(1) by (simp add: field_simps)
    then show "2 powr real_of_int e \<le> \<bar>x\<bar>" by (simp only: lo)
    have "\<bar>x\<bar> < 2 ^ 53 / 2 ^ n" using x(2) by (simp add: field_simps)
    then show "\<bar>x\<bar> < 2 powr (real_of_int e + 1)" by (simp only: hi)
    show "- 1022 \<le> e" using n by (simp add: e_def)
  qed
  then show ?thesis by (simp add: u)
qed

lemma fadd_rounds_to_one: "fadd (1 / 2) (1 / 2 - 1 / 2 ^ 54) = 1"
proof -
  have r: "roundTiesToEven (18014398509481983 / 2) = 9007199254740992"
    by (simp add: roundTiesToEven_def)
  have "fl (1 / 2 + (1 / 2 - 1 / 2 ^ 54)) =
      real_of_int (roundTiesToEven ((1 / 2 + (1 / 2 - 1 / 2 ^ 54)) * 2 ^ 53)) / 2 ^ 53"
    by (rule fl_scaled) simp_all
  also have "(1 / 2 + (1 / 2 - 1 / 2 ^ 54)) * 2 ^ 53 = (18014398509481983 / 2 :: real)"
    by simp
  finally show ?thesis by (simp add: fadd_def r)
qed

lemma fsub_rounds_to_fifty: "fsub 51 (1 - 1 / 2 ^ 53) = 50"
proof -
  have r: "roundTiesToEven (450359962737049601 / 64) = 7036874417766400"
    by (simp add: roundTiesToEven_def)
  have "fl (51 - (1 - 1 / 2 ^ 53)) =
      real_of_int (roundTiesToEven ((51 - (1 - 1 / 2 ^ 53)) * 2 ^ 47)) / 2 ^ 47"
    by (rule fl_scaled) simp_all
  also have "(51 - (1 - 1 / 2 ^ 53)) * 2 ^ 47 = (450359962737049601 / 64 :: real)"
    by simp
  finally show ?thesis by (simp add: fsub_def r)
qed

lemma fsub_fadd_at_epoch: "fsub (fadd 1704067200000 (15432 / 125)) 1704067200000 = 126419 / 1024"
proof -
  have r: "roundTiesToEven (872482406463209472 / 125) = 6979859251705676"
    by (simp add: roundTiesToEven_def)
  have "fl (1704067200000 + 15432 / 125) =
      real_of_int (roundTiesToEven ((1704067200000 + 15432 / 125) * 2 ^ 12)) / 2 ^ 12"
    by (rule fl_scaled) simp_all
  also have "(1704067200000 + 15432 / 125) * 2 ^ 12 = (872482406463209472 / 125 :: real)"
    by simp
  finally have a: "fadd 1704067200000 (15432 / 125) = 1744964812926419 / 1024"
    by (simp add: fadd_def r)
  have d: "(1744964812926419 / 1024 - 1704067200000 :: real) = 126419 / 1024" by simp
  have f: "fl (126419 / 1024) = 126419 / 1024"
    using fl_dyadic [of 126419 10] by simp
  show ?thesis unfolding fsub_def a d f ..
qed

subsection \<open>The unit index of \<^verbatim>\<open>formatBytes\<close>\<close>

text \<open>
  The index is the integer logarithm to the base 1024, which gives an equation to
  compute it with.
\<close>

lemma unitIndex_floorlog: "0 < b \<Longrightarrow> unitIndex b = floorlog 1024 b - 1"
  by (simp add: unitIndex_def floorlog_def log_def)

lemma unitIndex_code [code]:
  "unitIndex b = (if b < 1024 then 0 else unitIndex (b div 1024) + 1)"
proof (cases "b = 0")
  case True
  then show ?thesis by (simp add: unitIndex_def)
next
  case False
  then have pos: "0 < b" by simp
  show ?thesis
  proof (cases "b < 1024")
    case True
    with pos have "floorlog 1024 b = 1"
      by (subst compute_floorlog) (simp add: floorlog_def)
    with pos True show ?thesis by (simp add: unitIndex_floorlog)
  next
    case False
    then have d: "0 < b div 1024" by (simp add: div_greater_zero_iff)
    have "floorlog 1024 b = floorlog 1024 (b div 1024) + 1"
      using pos by (subst compute_floorlog) simp
    moreover have "0 < floorlog 1024 (b div 1024)"
      using d by (simp add: floorlog_def)
    ultimately show ?thesis
      using pos d False by (simp add: unitIndex_floorlog)
  qed
qed

lemma unitIndex_less: "0 < b \<Longrightarrow> b < 1024 ^ w \<Longrightarrow> 0 < w \<Longrightarrow> unitIndex b < w"
  using floorlog_leI [of b 1024 w] by (simp add: unitIndex_floorlog floorlog_def)

lemma unitIndex_ge: "1024 ^ w \<le> b \<Longrightarrow> w \<le> unitIndex b"
proof -
  assume a: "1024 ^ w \<le> b"
  then have "0 < b" by (metis gr0I not_le zero_less_numeral zero_less_power)
  moreover from a have "Suc w \<le> floorlog 1024 b" by (intro floorlog_ge_SucI) simp_all
  ultimately show ?thesis by (simp add: unitIndex_floorlog)
qed

text \<open>
  C10. For a byte count \<open>b\<close> below \<open>1024 ^ 4\<close>, \<^verbatim>\<open>formatBytes\<close> returns \<^verbatim>\<open>"0 Bytes"\<close> at
  \<open>b = 0\<close> and otherwise the number followed by a space and \<^verbatim>\<open>sizes[i]\<close> with the index
  \<open>i\<close> inside the array, so the string ends with one of the four units. From
  \<open>1024 ^ 4\<close> on the index is past the end of the array, and the string ends with
  \<^verbatim>\<open>undefined\<close> instead of a unit.
\<close>

theorem C10_formatBytes_unit:
  "(b < 1024 ^ 4 \<longrightarrow>
      (b = 0 \<longrightarrow> formatBytes b = ''0 Bytes'') \<and>
      (0 < b \<longrightarrow> unitIndex b < length sizes \<and>
         formatBytes b =
           showHundredths (toFixed2 (real b / 1024 ^ unitIndex b)) @ '' '' @ sizes ! unitIndex b) \<and>
      (\<exists>u\<in>set sizes. suffix ('' '' @ u) (formatBytes b))) \<and>
   (1024 ^ 4 \<le> b \<longrightarrow>
      length sizes \<le> unitIndex b \<and> suffix '' undefined'' (formatBytes b) \<and>
      (\<forall>u\<in>set sizes. \<not> suffix ('' '' @ u) (formatBytes b)))"
proof (intro conjI impI)
  assume "b < 1024 ^ 4" "b = 0"
  then show "formatBytes b = ''0 Bytes''" by (simp add: formatBytes_def)
next
  assume "b < 1024 ^ 4" "0 < b"
  then show "unitIndex b < length sizes"
    using unitIndex_less [of b 4] by (simp add: sizes_def)
  then show "formatBytes b =
      showHundredths (toFixed2 (real b / 1024 ^ unitIndex b)) @ '' '' @ sizes ! unitIndex b"
    using \<open>0 < b\<close> by (simp add: formatBytes_def Let_def)
next
  assume lt: "b < 1024 ^ 4"
  show "\<exists>u\<in>set sizes. suffix ('' '' @ u) (formatBytes b)"
  proof (cases "b = 0")
    case True
    have "suffix '' Bytes'' (''0'' @ '' Bytes'')" by (rule suffixI) simp
    then show ?thesis using True by (simp add: formatBytes_def sizes_def)
  next
    case False
    then have i: "unitIndex b < length sizes"
      using lt unitIndex_less [of b 4] by (simp add: sizes_def)
    have "suffix ('' '' @ sizes ! unitIndex b)
            (showHundredths (toFixed2 (real b / 1024 ^ unitIndex b)) @ '' '' @ sizes ! unitIndex b)"
      by (rule suffixI) simp
    then have "suffix ('' '' @ sizes ! unitIndex b) (formatBytes b)"
      using False i by (simp add: formatBytes_def Let_def)
    moreover have "sizes ! unitIndex b \<in> set sizes" using i by (rule nth_mem)
    ultimately show ?thesis by blast
  qed
next
  assume ge: "1024 ^ 4 \<le> b"
  then show i: "length sizes \<le> unitIndex b"
    using unitIndex_ge [of 4 b] by (simp add: sizes_def)
  from ge have pos: "b \<noteq> 0" by auto
  have fb: "formatBytes b =
      showHundredths (toFixed2 (real b / 1024 ^ unitIndex b)) @ '' undefined''"
    using pos i by (simp add: formatBytes_def Let_def)
  show "suffix '' undefined'' (formatBytes b)"
    unfolding fb by (rule suffixI) simp
  show "\<forall>u\<in>set sizes. \<not> suffix ('' '' @ u) (formatBytes b)"
    unfolding fb by (simp add: sizes_def suffix_def append_eq_append_conv2) 
qed

theorem C10_formatBytes_unit_witness:
  "(1536::nat) < 1024 ^ 4 \<and> (0::nat) < 1536 \<and> unitIndex 1536 < length sizes \<and>
   formatBytes 1536 = ''1.5 KB'' \<and> ''KB'' \<in> set sizes \<and>
   (1024::nat) ^ 4 \<le> 1024 ^ 4 \<and> length sizes \<le> unitIndex (1024 ^ 4) \<and>
   suffix '' undefined'' (formatBytes (1024 ^ 4))"
  using C10_formatBytes_unit [of 1536] C10_formatBytes_unit [of "1024 ^ 4"]
  by (simp add: unitIndex_code toFixed2_def showHundredths_def sizes_def digit_def)

subsection \<open>The empty trace\<close>

text \<open>
  C2, as the code has it. On the empty entry list \<^verbatim>\<open>performAnalysis\<close> throws a
  \<^verbatim>\<open>TypeError\<close> at \<^verbatim>\<open>entries[0].startedDateTime\<close>, whatever the report and the argument
  limit of the engine; \<^verbatim>\<open>analyzeHARFile\<close> catches it and ends with a failure, so no report
  is produced.
\<close>

theorem C2_empty_trace_fails:
  "performAnalysis maxArgs [] r = Inl TypeError \<and> analyzeHARFile maxArgs [] = Inl TypeError"
  by (simp add: analyzeHARFile_def)

text \<open>
  C2, as stated, asks for a report without an error on the empty entry list; the
  analysis ends in the error instead.
\<close>

theorem C2_empty_trace_counterexample:
  "isl (analyzeHARFile 100000 []) \<and> analyzeHARFile 100000 [] \<noteq> Inr initialReport"
  by (simp add: analyzeHARFile_def)

subsection \<open>Evaluation on a given trace\<close>

text \<open>
  The example traces are analysed by an engine that takes 100000 arguments in a call;
  none of them has more than four entries.
\<close>

lemmas analysis_defs =
  request_def initialReport_def analyzeRequest_def Let_def contentTypeOf_def sizeOf_def
  categorize_def identifyCriticalPath_def isHtmlDocument_def isCriticalResource_def
  findPerformanceGaps_def timelineOf_def analyzeResourceBreakdown_def roundBreakdown_def
  identifyBottlenecks_def Math_round_def targetLoadTime_def analyzeHARFile_def
  generateOptimizationPlan_def formatBytes_def unitIndex_code toFixed2_def
  showHundredths_def sizes_def digit_def fadd_def fsub_def fdiv_def fl_exact

subsection \<open>The resource breakdown\<close>

lemma countOf_addRequests:
  "countOf (addRequests es m) c = countOf m c + length (filter (\<lambda>e. classOf e = c) es)"
  by (induction es arbitrary: m)
     (auto simp: countOf_def addRequest_def split: option.splits)

lemma dom_addRequests: "dom (addRequests es m) = dom m \<union> classOf ` set es"
  by (induction es arbitrary: m) auto

lemma avgExact_addRequest:
  "avgExact m \<Longrightarrow> avgExact (m(classOf e \<mapsto> addRequest e (m (classOf e))))"
  by (auto simp: avgExact_def addRequest_def split: option.splits)

lemma avgExact_addRequests: "avgExact m \<Longrightarrow> avgExact (addRequests es m)"
  by (induction es arbitrary: m) (simp_all add: avgExact_addRequest)

lemma length_by_type:
  "sum_list (map (\<lambda>c. length (filter (\<lambda>e. classOf e = c) es)) allTypes) = length es"
proof (induction es)
  case Nil
  then show ?case by (simp add: allTypes_def)
next
  case (Cons e es)
  then show ?case by (cases "classOf e") (simp_all add: allTypes_def)
qed

lemma UNIV_resourceType: "(UNIV :: resourceType set) = set allTypes"
proof -
  have "c \<in> set allTypes" for c by (cases c) (simp_all add: allTypes_def)
  then show ?thesis by auto
qed

lemma sum_dom_count:
  "(\<Sum>c\<in>dom m. count (the (m c))) = sum_list (map (countOf m) allTypes)"
proof -
  have "(\<Sum>c\<in>dom m. count (the (m c))) = (\<Sum>c\<in>dom m. countOf m c)"
    by (rule sum.cong) (auto simp: countOf_def)
  also have "\<dots> = (\<Sum>c\<in>set allTypes. countOf m c)"
  proof (rule sum.mono_neutral_left)
    show "finite (set allTypes)" by simp
    show "dom m \<subseteq> set allTypes" by (simp add: UNIV_resourceType [symmetric])
    show "\<forall>c\<in>set allTypes - dom m. countOf m c = 0"
      by (auto simp: countOf_def split: option.splits)
  qed
  also have "\<dots> = sum_list (map (countOf m) allTypes)"
    by (rule sum.distinct_set_conv_list) (simp add: allTypes_def)
  finally show ?thesis .
qed

lemma resourceBreakdown_result:
  "resourceBreakdown (analysisResult es initialReport) c =
     map_option roundBreakdown (addRequests es Map.empty c)"
  by (simp add: analysisResult_def initialReport_def)

text \<open>
  C8. After the analysis of a trace, the \<^verbatim>\<open>count\<close> fields of the resource breakdown
  add up to the number of entries of the trace; the breakdown has an entry exactly for the
  classes that occur in the trace, and the \<^verbatim>\<open>count\<close> of a class is the number of its
  entries, so it is never zero.
\<close>

theorem C8_counts_sum_to_records:
  assumes "performAnalysis maxArgs es initialReport = Inr r'"
  shows "(\<Sum>c\<in>dom (resourceBreakdown r'). count (the (resourceBreakdown r' c))) = length es \<and>
         dom (resourceBreakdown r') = classOf ` set es \<and>
         (\<forall>c s. resourceBreakdown r' c = Some s \<longrightarrow>
            count s = length (filter (\<lambda>e. classOf e = c) es) \<and> 0 < count s)"
proof -
  from assms have r': "r' = analysisResult es initialReport"
    by (simp add: performAnalysis_InrD)
  define m where "m = addRequests es Map.empty"
  have rb: "resourceBreakdown r' c = map_option roundBreakdown (m c)" for c
    by (simp add: r' resourceBreakdown_result m_def)
  have cnt: "countOf (resourceBreakdown r') c = length (filter (\<lambda>e. classOf e = c) es)" for c
    using countOf_addRequests [of es Map.empty c]
    by (simp add: countOf_def rb m_def roundBreakdown_def split: option.splits)
  have "(\<Sum>c\<in>dom (resourceBreakdown r'). count (the (resourceBreakdown r' c))) =
        sum_list (map (countOf (resourceBreakdown r')) allTypes)"
    by (rule sum_dom_count)
  also have "\<dots> = length es"
  proof -
    have "countOf (resourceBreakdown r') = (\<lambda>c. length (filter (\<lambda>e. classOf e = c) es))"
      by (rule ext) (rule cnt)
    then show ?thesis by (simp only: length_by_type)
  qed
  finally have total:
    "(\<Sum>c\<in>dom (resourceBreakdown r'). count (the (resourceBreakdown r' c))) = length es" .
  have d: "dom (resourceBreakdown r') = classOf ` set es"
    using dom_addRequests [of es Map.empty] by (auto simp: rb m_def dom_def)
  have each: "count s = length (filter (\<lambda>e. classOf e = c) es) \<and> 0 < count s"
    if s: "resourceBreakdown r' c = Some s" for c s
  proof -
    from s have c: "count s = length (filter (\<lambda>e. classOf e = c) es)"
      using cnt [of c] by (simp add: countOf_def)
    from s have "c \<in> classOf ` set es" using d by auto
    then have "filter (\<lambda>e. classOf e = c) es \<noteq> []" by (auto simp: filter_empty_conv)
    with c show ?thesis by simp
  qed
  from total d each show ?thesis by blast
qed

text \<open>The trace of scenario A: two entries, of the classes html and css.\<close>

theorem C8_counts_sum_to_records_witness:
  "performAnalysis 100000 scenarioA initialReport = Inr (analysisResult scenarioA initialReport) \<and>
   (\<Sum>c\<in>dom (resourceBreakdown (analysisResult scenarioA initialReport)).
      count (the (resourceBreakdown (analysisResult scenarioA initialReport) c))) = 2 \<and>
   dom (resourceBreakdown (analysisResult scenarioA initialReport)) = {Html, Css}"
proof -
  have h: "performAnalysis 100000 scenarioA initialReport = Inr (analysisResult scenarioA initialReport)"
    by (rule performAnalysis_eq) (simp_all add: scenarioA_def)
  have c: "classOf ` set scenarioA = {Html, Css}"
    by (auto simp add: scenarioA_def classOf_def analysis_defs)
  have l: "length scenarioA = 2" by (simp add: scenarioA_def)
  from C8_counts_sum_to_records [OF h]
  have "(\<Sum>c\<in>dom (resourceBreakdown (analysisResult scenarioA initialReport)).
          count (the (resourceBreakdown (analysisResult scenarioA initialReport) c))) =
        length scenarioA"
    and "dom (resourceBreakdown (analysisResult scenarioA initialReport)) = classOf ` set scenarioA"
    by blast+
  then show ?thesis unfolding l c using h by (intro conjI)
qed

lemma Math_round_bounds: "\<bar>real_of_int (Math_round x) - x\<bar> \<le> 1 / 2"
  unfolding Math_round_def by linarith

lemma Math_round_exact_iff: "real_of_int (Math_round x) = x \<longleftrightarrow> x \<in> \<int>"
proof
  assume "real_of_int (Math_round x) = x"
  then show "x \<in> \<int>" by (metis Ints_of_int)
next
  assume "x \<in> \<int>"
  then obtain k where "x = real_of_int k" by (auto elim: Ints_cases)
  then show "real_of_int (Math_round x) = x" by (simp add: Math_round_def)
qed

lemma avgExact_result: "avgExact (addRequests es Map.empty)"
  by (rule avgExact_addRequests) (simp add: avgExact_def)

text \<open>
  C9, as the code has it. For a class present in the trace, \<^verbatim>\<open>count\<close> is the number of
  its entries, and the \<^verbatim>\<open>avgTime\<close> of the final report is \<^verbatim>\<open>Math.round\<close> of the quotient
  \<^verbatim>\<open>totalTime / count\<close> of the fields stored with it: \<^verbatim>\<open>analyzeResourceBreakdown\<close> rounds
  the stored average. It is within one half of that quotient, and equal to it exactly
  when the quotient is an integer.
\<close>

theorem C9_avgTime_is_rounded:
  assumes "performAnalysis maxArgs es initialReport = Inr r'"
    and "resourceBreakdown r' c = Some s"
  shows "0 < count s \<and>
         count s = length (filter (\<lambda>e. classOf e = c) es) \<and>
         avgTime s = real_of_int (Math_round (fdiv (totalTime s) (real (count s)))) \<and>
         \<bar>avgTime s - fdiv (totalTime s) (real (count s))\<bar> \<le> 1 / 2 \<and>
         (avgTime s = fdiv (totalTime s) (real (count s)) \<longleftrightarrow>
            fdiv (totalTime s) (real (count s)) \<in> \<int>)"
proof -
  from assms(1) have r': "r' = analysisResult es initialReport"
    by (simp add: performAnalysis_InrD)
  from assms(2) obtain s0 where s0: "addRequests es Map.empty c = Some s0"
    and s: "s = roundBreakdown s0"
    by (auto simp: r' resourceBreakdown_result)
  from avgExact_result [of es] s0
  have pos: "0 < count s0" and avg: "avgTime s0 = fdiv (totalTime s0) (real (count s0))"
    by (auto simp: avgExact_def)
  have cnt: "count s0 = length (filter (\<lambda>e. classOf e = c) es)"
    using countOf_addRequests [of es Map.empty c] by (simp add: countOf_def s0)
  have fields: "count s = count s0" "totalTime s = totalTime s0"
    "avgTime s = real_of_int (Math_round (fdiv (totalTime s0) (real (count s0))))"
    by (simp_all add: s roundBreakdown_def avg)
  show ?thesis
    unfolding fields using pos cnt Math_round_bounds Math_round_exact_iff by simp
qed

text \<open>
  Two stylesheets of 1 ms and 2 ms: the total is 3, the count 2, and the average in the
  report is \<^verbatim>\<open>Math.round(1.5)\<close>, which is 2.
\<close>

theorem C9_avgTime_is_rounded_witness:
  "performAnalysis 100000 twoStylesheets initialReport =
     Inr (analysisResult twoStylesheets initialReport) \<and>
   resourceBreakdown (analysisResult twoStylesheets initialReport) Css =
     Some \<lparr>count = 2, totalSize = 200, totalTime = 3, avgTime = 2,
           totalSizeFormatted = Some ''200 Bytes''\<rparr> \<and>
   fdiv 3 (real 2) = 3 / 2 \<and>
   (2::real) = real_of_int (Math_round (fdiv 3 (real 2))) \<and>
   \<bar>(2::real) - fdiv 3 (real 2)\<bar> \<le> 1 / 2"
proof -
  have h: "performAnalysis 100000 twoStylesheets initialReport =
      Inr (analysisResult twoStylesheets initialReport)"
    by (rule performAnalysis_eq) (simp_all add: twoStylesheets_def)
  have s: "resourceBreakdown (analysisResult twoStylesheets initialReport) Css =
      Some \<lparr>count = 2, totalSize = 200, totalTime = 3, avgTime = 2,
            totalSizeFormatted = Some ''200 Bytes''\<rparr>"
    by (simp add: analysisResult_def twoStylesheets_def classOf_def addRequest_def
        analysis_defs)
  have q: "fdiv 3 (real 2) = 3 / 2" by (simp add: fdiv_def fl_exact)
  from C9_avgTime_is_rounded [OF h s] h s q show ?thesis by simp
qed

text \<open>
  C9, as stated, has the average of the final report equal to the quotient. For the two
  stylesheets the report holds 2 and the quotient of the total 3 and the count 2 is
  3 / 2, a double.
\<close>

theorem C9_exact_average_counterexample:
  "map_sum id
     (\<lambda>r. map_option (\<lambda>s. (count s, totalTime s, avgTime s)) (resourceBreakdown r Css))
     (performAnalysis 100000 twoStylesheets initialReport) = Inr (Some (2, 3, 2)) \<and>
   fdiv 3 (real 2) = 3 / 2 \<and> (2::real) \<noteq> 3 / 2"
  by (simp add: twoStylesheets_def analysis_defs)

text \<open>
  The sum of the times is rounded as the code rounds it: for 0.5 ms and just below 0.5 ms
  the stored total is 1, the stored quotient 0.5, and the average of the report 1.
\<close>

lemma roundedTotal_breakdown:
  "map_sum id (\<lambda>r. map_option (\<lambda>s. (count s, totalTime s, avgTime s)) (resourceBreakdown r Css))
     (performAnalysis 100000 roundedTotal initialReport) = Inr (Some (2, 1, 1))"
proof -
  have h: "performAnalysis 100000 roundedTotal initialReport =
      Inr (analysisResult roundedTotal initialReport)"
    by (rule performAnalysis_eq) (simp_all add: roundedTotal_def)
  have one: "fl (18014398509481983 / 18014398509481984) = 1"
    using fadd_rounds_to_one by (simp add: fadd_def)
  have "addRequests roundedTotal Map.empty Css =
      Some \<lparr>count = 2, totalSize = 200, totalTime = 1, avgTime = 1 / 2,
            totalSizeFormatted = None\<rparr>"
    by (simp add: roundedTotal_def request_def classOf_def categorize_def contentTypeOf_def
        sizeOf_def addRequest_def fadd_def fdiv_def fl_exact one)
  then show ?thesis
    by (simp add: h resourceBreakdown_result roundBreakdown_def Math_round_def)
qed

subsection \<open>The total load time and the time origin\<close>

lemma set_bottlenecks_result:
  "set (bottlenecks (analysisResult es initialReport)) =
     (\<Union>e\<in>set es. set (requestBottlenecks (startedDateTime (hd es)) e))"
  by (simp add: analysisResult_def initialReport_def)

lemma b_startTime_requestBottlenecks:
  "b \<in> set (requestBottlenecks st e) \<Longrightarrow>
   b_startTime b = real_of_int (startedDateTime e - st) \<and> b_time b = time e"
  by (auto simp: requestBottlenecks_def mkBottleneck_def split: if_splits)

lemma minStart_first:
  assumes "es \<noteq> []" and "\<forall>e\<in>set es. startedDateTime (hd es) \<le> startedDateTime e"
  shows "minStart es = startedDateTime (hd es)"
  unfolding minStart_def using assms by (intro Min_eqI) auto

lemma Min_startOffsetMs:
  assumes "es \<noteq> []"
  shows "Min (startOffsetMs es ` set es) = 0"
proof (rule Min_eqI)
  show "finite (startOffsetMs es ` set es)" by simp
  have le: "minStart es \<le> startedDateTime e" if "e \<in> set es" for e
    unfolding minStart_def using that by (intro Min_le) auto
  then show "0 \<le> y" if "y \<in> startOffsetMs es ` set es" for y
    using that by (auto simp: startOffsetMs_def)
  have "minStart es \<in> startedDateTime ` set es"
    unfolding minStart_def using assms by (intro Min_in) auto
  then obtain e where "e \<in> set es" "startedDateTime e = minStart es" by auto
  then show "0 \<in> startOffsetMs es ` set es"
    by (auto simp: startOffsetMs_def image_iff intro!: bexI [of _ e])
qed

text \<open>
  C1, as the code has it. When the analysis returns a report, the trace has a first
  entry, and \<^verbatim>\<open>totalLoadTime\<close> is the latest end timestamp, each being the double sum of
  a start timestamp and a time, minus the start timestamp of the first entry of the list,
  a double difference. The start offset stored with every bottleneck is the start
  timestamp of its entry minus that same origin. When no entry starts before the first
  one, the origin is the minimum start timestamp: the stored offsets are the offsets from
  the minimum, the least of them is 0, and \<^verbatim>\<open>totalLoadTime\<close> is the maximum end timestamp
  minus the minimum start timestamp.
\<close>

theorem C1_totalLoadTime_from_first_entry:
  assumes "performAnalysis maxArgs es initialReport = Inr r'"
  shows "es \<noteq> [] \<and>
      totalLoadTime r' =
        fsub (Max (endTimestamp ` set es)) (real_of_int (startedDateTime (hd es))) \<and>
      (\<forall>b\<in>set (bottlenecks r'). \<exists>e\<in>set es.
         b \<in> set (requestBottlenecks (startedDateTime (hd es)) e) \<and>
         b_startTime b = real_of_int (startedDateTime e - startedDateTime (hd es))) \<and>
      ((\<forall>e\<in>set es. startedDateTime (hd es) \<le> startedDateTime e) \<longrightarrow>
         startedDateTime (hd es) = minStart es \<and>
         Min (startOffsetMs es ` set es) = 0 \<and>
         totalLoadTime r' = fsub (Max (endTimestamp ` set es)) (real_of_int (minStart es)) \<and>
         (\<forall>b\<in>set (bottlenecks r'). \<exists>e\<in>set es.
            b \<in> set (requestBottlenecks (startedDateTime (hd es)) e) \<and>
            b_startTime b = startOffsetMs es e))"
proof -
  from assms have ne: "es \<noteq> []" and r': "r' = analysisResult es initialReport"
    by (simp_all add: performAnalysis_InrD)
  have total: "totalLoadTime r' =
      fsub (Max (endTimestamp ` set es)) (real_of_int (startedDateTime (hd es)))"
    by (simp add: r' analysisResult_def)
  have offs: "\<exists>e\<in>set es.
      b \<in> set (requestBottlenecks (startedDateTime (hd es)) e) \<and>
      b_startTime b = real_of_int (startedDateTime e - startedDateTime (hd es))"
    if "b \<in> set (bottlenecks r')" for b
    using that b_startTime_requestBottlenecks
    unfolding r' set_bottlenecks_result by blast
  have chrono: "startedDateTime (hd es) = minStart es \<and>
      Min (startOffsetMs es ` set es) = 0 \<and>
      totalLoadTime r' = fsub (Max (endTimestamp ` set es)) (real_of_int (minStart es)) \<and>
      (\<forall>b\<in>set (bottlenecks r'). \<exists>e\<in>set es.
         b \<in> set (requestBottlenecks (startedDateTime (hd es)) e) \<and>
         b_startTime b = startOffsetMs es e)"
    if first: "\<forall>e\<in>set es. startedDateTime (hd es) \<le> startedDateTime e"
  proof -
    have m: "minStart es = startedDateTime (hd es)"
      using ne first by (rule minStart_first)
    have "\<exists>e\<in>set es.
        b \<in> set (requestBottlenecks (startedDateTime (hd es)) e) \<and>
        b_startTime b = startOffsetMs es e"
      if "b \<in> set (bottlenecks r')" for b
      using offs [OF that] by (simp add: startOffsetMs_def m)
    then show ?thesis using m total Min_startOffsetMs [OF ne] by simp
  qed
  from ne total offs chrono show ?thesis by blast
qed

text \<open>
  A trace in the order of its start timestamps: the total is 160 ms, from the start of the
  document to the end of the script, and the slow script is stored with the offset 10.
\<close>

theorem C1_totalLoadTime_from_first_entry_witness:
  "performAnalysis 100000 slowScript initialReport =
     Inr (analysisResult slowScript initialReport) \<and>
   startedDateTime (hd slowScript) = minStart slowScript \<and>
   totalLoadTime (analysisResult slowScript initialReport) = 160 \<and>
   map b_startTime (bottlenecks (analysisResult slowScript initialReport)) = [10] \<and>
   fsub (Max (endTimestamp ` set slowScript)) (real_of_int (minStart slowScript)) = 160 \<and>
   Min (startOffsetMs slowScript ` set slowScript) = 0"
proof -
  have h: "performAnalysis 100000 slowScript initialReport =
      Inr (analysisResult slowScript initialReport)"
    by (rule performAnalysis_eq) (simp_all add: slowScript_def)
  have first: "\<forall>e\<in>set slowScript. startedDateTime (hd slowScript) \<le> startedDateTime e"
    by (simp add: slowScript_def request_def)
  have ev: "map_sum id (\<lambda>r. (totalLoadTime r, map b_startTime (bottlenecks r)))
      (performAnalysis 100000 slowScript initialReport) = Inr (160, [10])"
    by (simp add: slowScript_def analysis_defs)
  from ev have v: "totalLoadTime (analysisResult slowScript initialReport) = 160"
    "map b_startTime (bottlenecks (analysisResult slowScript initialReport)) = [10]"
    unfolding h by simp_all
  from C1_totalLoadTime_from_first_entry [OF h] first
  have "startedDateTime (hd slowScript) = minStart slowScript"
    and "Min (startOffsetMs slowScript ` set slowScript) = 0"
    and "totalLoadTime (analysisResult slowScript initialReport) =
      fsub (Max (endTimestamp ` set slowScript)) (real_of_int (minStart slowScript))"
    by blast+
  with h v show ?thesis by simp
qed

text \<open>
  C1, as stated, takes the minimum start timestamp as the origin. With the late entry
  first the analysis reports 150 ms, with the offsets 0 and -100, where the maximum end
  offset minus the minimum start offset is 250 ms and the offsets from the minimum are
  100 and 0. All these numbers are integers, which no sum or difference rounds.
\<close>

theorem C1_minimum_origin_counterexample:
  "map_sum id (\<lambda>r. (totalLoadTime r, map b_startTime (bottlenecks r)))
     (performAnalysis 100000 lateFirst initialReport) = Inr (150, [0, - 100]) \<and>
   fsub (Max (endOffsetMs lateFirst ` set lateFirst))
     (Min (startOffsetMs lateFirst ` set lateFirst)) = 250 \<and>
   map (startOffsetMs lateFirst) lateFirst = [100, 0]"
proof -
  have ev: "map_sum id (\<lambda>r. (totalLoadTime r, map b_startTime (bottlenecks r)))
      (performAnalysis 100000 lateFirst initialReport) = Inr (150, [0, - 100])"
    by (simp add: lateFirst_def analysis_defs)
  have ms: "minStart lateFirst = 0"
    by (simp add: minStart_def lateFirst_def request_def)
  have so: "startOffsetMs lateFirst = (\<lambda>e. real_of_int (startedDateTime e))"
    by (rule ext) (simp add: startOffsetMs_def ms)
  have eo: "endOffsetMs lateFirst = (\<lambda>e. fadd (real_of_int (startedDateTime e)) (time e))"
    by (rule ext) (simp add: endOffsetMs_def so)
  have off: "map (startOffsetMs lateFirst) lateFirst = [100, 0]"
    unfolding so by (simp add: lateFirst_def request_def)
  have "Max (endOffsetMs lateFirst ` set lateFirst) = 250"
    unfolding eo by (simp add: lateFirst_def request_def fadd_def fl_exact)
  moreover have "Min (startOffsetMs lateFirst ` set lateFirst) = 0"
    unfolding so by (simp add: lateFirst_def request_def)
  ultimately show ?thesis using ev off by (simp add: fsub_def fl_exact)
qed

text \<open>
  At a timestamp of the year 2024 the end timestamp is rounded to a multiple of
  \<open>1 / 4096\<close>: a single request of 123.456 ms has the total 123.4560546875.
\<close>

lemma epochRequest_total:
  "map_sum id totalLoadTime (performAnalysis 100000 epochRequest initialReport) =
     Inr (126419 / 1024)"
proof -
  have h: "performAnalysis 100000 epochRequest initialReport =
      Inr (analysisResult epochRequest initialReport)"
    by (rule performAnalysis_eq) (simp_all add: epochRequest_def)
  have "totalLoadTime (analysisResult epochRequest initialReport) =
      fsub (fadd 1704067200000 (15432 / 125)) 1704067200000"
    by (simp add: analysisResult_def epochRequest_def request_def endTimestamp_def)
  then show ?thesis by (simp only: h map_sum.simps fsub_fadd_at_epoch)
qed

subsection \<open>Bottlenecks\<close>

lemma bottlenecks_result:
  "bottlenecks (analysisResult es initialReport) =
     sort_key (\<lambda>b. - b_time b)
       (concat (map (requestBottlenecks (startedDateTime (hd es))) es))"
  by (simp add: analysisResult_def initialReport_def)

lemma sorted_wrt_sort_key_desc:
  "sorted_wrt (\<lambda>a b. b_time b \<le> b_time a) (sort_key (\<lambda>b. - b_time b) xs)"
proof -
  have "sorted (map (\<lambda>b. - b_time b) (sort_key (\<lambda>b. - b_time b) xs))"
    by (rule sorted_sort_key)
  then show ?thesis by (simp add: sorted_map)
qed

lemma set_requestBottlenecks:
  "(\<Union>e\<in>set es. set (requestBottlenecks st e)) =
     (\<lambda>e. mkBottleneck st e ''Slow request'') ` {e \<in> set es. 100 < time e} \<union>
     (\<lambda>e. mkBottleneck st e ''Large file size'') ` {e \<in> set es. 500 * 1024 < sizeOf e}"
  by (auto simp: requestBottlenecks_def split: if_splits)

lemma length_requestBottlenecks:
  "length (concat (map (requestBottlenecks st) es)) =
     length (filter (\<lambda>e. 100 < time e) es) + length (filter (\<lambda>e. 500 * 1024 < sizeOf e) es)"
  by (induction es) (simp_all add: requestBottlenecks_def)

lemma analyzeRequest_both:
  assumes "100 < time e" and "500 * 1024 < sizeOf e"
  shows "bottlenecks (analyzeRequest e st r) =
     bottlenecks r @
     [mkBottleneck st e ''Slow request'', mkBottleneck st e ''Large file size'']"
  using assms by (simp add: analyzeRequest_eq requestBottlenecks_def)

text \<open>
  C4. The bottleneck list of the report is sorted by non-increasing \<^verbatim>\<open>time\<close>. Its entries
  are the slow-request entries of the records that take more than 100 ms and the
  large-file entries of the records of more than \<open>500 * 1024\<close> bytes, one entry for each
  record and threshold exceeded, so every entry comes from a record over the threshold
  of its issue. For a record that exceeds both thresholds \<^verbatim>\<open>analyzeRequest\<close> pushes two
  entries, the slow request and then the large file.
\<close>

theorem C4_bottlenecks_ranked:
  assumes "performAnalysis maxArgs es initialReport = Inr r'"
  shows "sorted_wrt (\<lambda>a b. b_time b \<le> b_time a) (bottlenecks r') \<and>
     set (bottlenecks r') =
       (\<lambda>e. mkBottleneck (startedDateTime (hd es)) e ''Slow request'') `
         {e \<in> set es. 100 < time e} \<union>
       (\<lambda>e. mkBottleneck (startedDateTime (hd es)) e ''Large file size'') `
         {e \<in> set es. 500 * 1024 < sizeOf e} \<and>
     length (bottlenecks r') =
       length (filter (\<lambda>e. 100 < time e) es) +
       length (filter (\<lambda>e. 500 * 1024 < sizeOf e) es) \<and>
     (\<forall>b\<in>set (bottlenecks r'). \<exists>e\<in>set es. b_time b = time e \<and>
        (b_issue b = ''Slow request'' \<and> 100 < time e \<or>
         b_issue b = ''Large file size'' \<and> 500 * 1024 < sizeOf e)) \<and>
     (\<forall>e\<in>set es. 100 < time e \<and> 500 * 1024 < sizeOf e \<longrightarrow>
        (\<forall>st r. bottlenecks (analyzeRequest e st r) =
           bottlenecks r @
           [mkBottleneck st e ''Slow request'', mkBottleneck st e ''Large file size'']))"
proof -
  define st where "st = startedDateTime (hd es)"
  from assms have r': "r' = analysisResult es initialReport"
    by (simp add: performAnalysis_InrD)
  have b: "bottlenecks r' = sort_key (\<lambda>b. - b_time b) (concat (map (requestBottlenecks st) es))"
    by (simp add: r' bottlenecks_result st_def)
  have s: "sorted_wrt (\<lambda>a b. b_time b \<le> b_time a) (bottlenecks r')"
    unfolding b by (rule sorted_wrt_sort_key_desc)
  have m: "set (bottlenecks r') =
      (\<lambda>e. mkBottleneck st e ''Slow request'') ` {e \<in> set es. 100 < time e} \<union>
      (\<lambda>e. mkBottleneck st e ''Large file size'') ` {e \<in> set es. 500 * 1024 < sizeOf e}"
    unfolding b using set_requestBottlenecks [of st es] by simp
  have l: "length (bottlenecks r') =
      length (filter (\<lambda>e. 100 < time e) es) + length (filter (\<lambda>e. 500 * 1024 < sizeOf e) es)"
    unfolding b by (simp add: length_requestBottlenecks)
  have i: "\<exists>e\<in>set es. b_time x = time e \<and>
      (b_issue x = ''Slow request'' \<and> 100 < time e \<or>
       b_issue x = ''Large file size'' \<and> 500 * 1024 < sizeOf e)"
    if "x \<in> set (bottlenecks r')" for x
    using that unfolding m by (auto simp: mkBottleneck_def)
  from s m l i analyzeRequest_both show ?thesis unfolding st_def by blast
qed

text \<open>
  Scenario C: the two entries of the one record, both of 150 ms, the slow request first.
\<close>

theorem C4_bottlenecks_ranked_witness:
  "performAnalysis 100000 scenarioC initialReport = Inr (analysisResult scenarioC initialReport) \<and>
   map (\<lambda>b. (b_issue b, b_time b, b_size b)) (bottlenecks (analysisResult scenarioC initialReport)) =
     [(''Slow request'', 150, ''600 KB''), (''Large file size'', 150, ''600 KB'')] \<and>
   length (bottlenecks (analysisResult scenarioC initialReport)) = 2"
proof -
  have h: "performAnalysis 100000 scenarioC initialReport = Inr (analysisResult scenarioC initialReport)"
    by (rule performAnalysis_eq) (simp_all add: scenarioC_def)
  have ev: "map_sum id (\<lambda>r. map (\<lambda>b. (b_issue b, b_time b, b_size b)) (bottlenecks r))
      (performAnalysis 100000 scenarioC initialReport) =
      Inr [(''Slow request'', 150, ''600 KB''), (''Large file size'', 150, ''600 KB'')]"
    by (simp add: scenarioC_def analysis_defs)
  have f: "length (filter (\<lambda>e. 100 < time e) scenarioC) = 1"
    "length (filter (\<lambda>e. 500 * 1024 < sizeOf e) scenarioC) = 1"
    by (simp_all add: scenarioC_def request_def sizeOf_def)
  from C4_bottlenecks_ranked [OF h] have
    "length (bottlenecks (analysisResult scenarioC initialReport)) =
       length (filter (\<lambda>e. 100 < time e) scenarioC) +
       length (filter (\<lambda>e. 500 * 1024 < sizeOf e) scenarioC)"
    by blast
  with ev h f show ?thesis by simp
qed

subsection \<open>Gaps of the timeline\<close>

lemma is_Gap_timelineGaps: "g \<in> set (timelineGaps ts) \<Longrightarrow> is_Gap g"
  by (auto simp: timelineGaps_def mkGap_def)

lemma not_is_Gap_targetExceeded: "g \<in> set (targetExceeded t) \<Longrightarrow> \<not> is_Gap g"
  by (auto simp: targetExceeded_def split: if_splits)

lemma filter_is_Gap:
  "filter is_Gap (timelineGaps ts @ targetExceeded t) = timelineGaps ts"
proof -
  have "filter is_Gap (timelineGaps ts) = timelineGaps ts"
    by (rule filter_True) (simp add: is_Gap_timelineGaps)
  moreover have "filter is_Gap (targetExceeded t) = []"
    by (rule filter_False) (simp add: not_is_Gap_targetExceeded)
  ultimately show ?thesis by simp
qed


lemma performanceGaps_result:
  "performanceGaps (analysisResult es initialReport) =
     timelineGaps (sort_key tl_start (map (timelineOf (startedDateTime (hd es))) es)) @
     targetExceeded (totalLoadTime (analysisResult es initialReport))"
  by (simp add: analysisResult_def initialReport_def)



text \<open>
  The distance is rounded as the code rounds it: from just before 1 ms to 51 ms it is 50,
  not more, and no gap is pushed.
\<close>

lemma roundedGap_no_gap:
  "map_sum id (\<lambda>r. filter is_Gap (performanceGaps r))
     (performAnalysis 100000 roundedGap initialReport) = Inr []"
proof -
  have h: "performAnalysis 100000 roundedGap initialReport =
      Inr (analysisResult roundedGap initialReport)"
    by (rule performAnalysis_eq) (simp_all add: roundedGap_def)
  have e: "fl (9007199254740991 / 9007199254740992) = 9007199254740991 / 9007199254740992"
    using fl_dyadic [of 9007199254740991 53] by simp
  have d: "fsub 51 (9007199254740991 / 9007199254740992) = 50"
    using fsub_rounds_to_fifty by simp
  have "timelineGaps
      (sort_key tl_start (map (timelineOf (startedDateTime (hd roundedGap))) roundedGap)) = []"
    by (simp add: roundedGap_def request_def timelineOf_def timelineGaps_def fadd_def e d
        fl_exact)
  moreover have "filter is_Gap (performanceGaps (analysisResult roundedGap initialReport)) =
      timelineGaps
        (sort_key tl_start (map (timelineOf (startedDateTime (hd roundedGap))) roundedGap))"
    by (simp only: performanceGaps_result filter_is_Gap)
  ultimately show ?thesis by (simp add: h)
qed

subsection \<open>The critical path\<close>

lemma isHtmlDocument_classOf: "isHtmlDocument e \<longleftrightarrow> classOf e = Html"
  by (cases "content_mimeType e")
     (auto simp: isHtmlDocument_def classOf_def categorize_def contentTypeOf_def)

lemma find_isHtmlDocument:
  "find isHtmlDocument es = find (\<lambda>e. classOf e = Html) es"
  by (rule find_cong) (simp_all add: isHtmlDocument_classOf)

lemma classOf_Css_Js_marker:
  "classOf e = Css \<or> classOf e = Js \<Longrightarrow>
   includesStr (contentTypeOf e) ''text/css'' \<or> includesStr (contentTypeOf e) ''javascript''"
  by (auto simp: classOf_def categorize_def split: if_splits)

lemma isCriticalResource_Css_Js:
  "classOf e = Css \<or> classOf e = Js \<Longrightarrow> isCriticalResource e \<longleftrightarrow> urlNotExcluded e"
  using classOf_Css_Js_marker [of e]
  by (auto simp: isCriticalResource_def urlNotExcluded_def Let_def)

lemma isCriticalResource_classOf:
  "isCriticalResource e \<Longrightarrow> classOf e = Html \<or> classOf e = Css \<or> classOf e = Js"
  by (auto simp: isCriticalResource_def classOf_def categorize_def Let_def)

lemma find_filter_hd:
  "find P xs = Some h \<Longrightarrow> \<exists>hs. filter P xs = h # hs"
  by (induction xs) (auto split: if_splits)

lemma arg_min_list_first:
  assumes "\<forall>e\<in>set hs. f h \<le> f e"
  shows "arg_min_list f (h # hs) = h"
proof (cases hs)
  case Nil
  then show ?thesis by simp
next
  case (Cons y zs)
  then have "arg_min_list f (y # zs) \<in> set hs"
    using arg_min_list_in [of "y # zs" f] by simp
  with assms have "f h \<le> f (arg_min_list f (y # zs))" by blast
  with Cons show ?thesis by (simp add: Let_def)
qed

lemma earliestHtml_first:
  assumes "find (\<lambda>e. classOf e = Html) es = Some h"
    and "\<forall>e\<in>set es. classOf e = Html \<longrightarrow> startedDateTime h \<le> startedDateTime e"
  shows "earliestHtml es = Some h"
proof -
  from assms(1) obtain hs where f: "filter (\<lambda>e. classOf e = Html) es = h # hs"
    by (auto dest: find_filter_hd)
  have "startedDateTime h \<le> startedDateTime e" if "e \<in> set hs" for e
  proof -
    from that have "e \<in> set (filter (\<lambda>e. classOf e = Html) es)" by (simp add: f)
    then have "e \<in> set es \<and> classOf e = Html" by simp
    with assms(2) show ?thesis by blast
  qed
  then have "arg_min_list startedDateTime (h # hs) = h"
    by (intro arg_min_list_first) blast
  then show ?thesis by (simp only: earliestHtml_def f list.case)
qed

lemma earliestHtml_None:
  "find (\<lambda>e. classOf e = Html) es = None \<Longrightarrow> earliestHtml es = None"
  by (auto simp: earliestHtml_def find_None_iff filter_empty_conv split: list.splits)

lemma criticalPathItems_result:
  "criticalPathItems (analysisResult es initialReport) = criticalPath es"
  by (simp add: analysisResult_def initialReport_def)

text \<open>
  C5, as the code has it. The critical path of the report starts with the item of the
  first html record in the order of the input, if the trace has an html record; then come
  the items of the records that pass the test of \<^verbatim>\<open>entries.filter\<close>, sorted by ascending
  time, the first five of them. A record of class css or js passes that test exactly when
  its URL contains neither \<^verbatim>\<open>analytics\<close> nor \<^verbatim>\<open>tracking\<close>, and a record that passes is of
  class html, css or js (html when its mime type also names \<^verbatim>\<open>text/css\<close> or
  \<^verbatim>\<open>javascript\<close>). When no html record starts before the first one and no html record
  passes the test, the critical path is the one of the specification.
\<close>

theorem C5_critical_path_first_html:
  assumes "performAnalysis maxArgs es initialReport = Inr r'"
  shows "criticalPathItems r' =
       (case find (\<lambda>e. classOf e = Html) es of None \<Rightarrow> [] | Some h \<Rightarrow> [htmlItem h]) @
       map criticalItem (take 5 (sort_key time (filter isCriticalResource es))) \<and>
     (\<forall>e. classOf e = Css \<or> classOf e = Js \<longrightarrow>
        (isCriticalResource e \<longleftrightarrow> urlNotExcluded e)) \<and>
     (\<forall>e. isCriticalResource e \<longrightarrow> classOf e = Html \<or> classOf e = Css \<or> classOf e = Js) \<and>
     ((\<forall>h e. find (\<lambda>e. classOf e = Html) es = Some h \<and> e \<in> set es \<and> classOf e = Html \<longrightarrow>
          startedDateTime h \<le> startedDateTime e \<and> \<not> isCriticalResource e) \<longrightarrow>
      criticalPathItems r' = specCriticalPath es)"
proof -
  from assms have r': "r' = analysisResult es initialReport"
    by (simp add: performAnalysis_InrD)
  have items: "criticalPathItems r' =
      (case find (\<lambda>e. classOf e = Html) es of None \<Rightarrow> [] | Some h \<Rightarrow> [htmlItem h]) @
      map criticalItem (take 5 (sort_key time (filter isCriticalResource es)))"
    by (simp add: r' criticalPathItems_result criticalPath_def find_isHtmlDocument)
  have spec: "criticalPathItems r' = specCriticalPath es"
    if side: "\<forall>h e. find (\<lambda>e. classOf e = Html) es = Some h \<and> e \<in> set es \<and> classOf e = Html \<longrightarrow>
          startedDateTime h \<le> startedDateTime e \<and> \<not> isCriticalResource e"
  proof -
    have first: "(case find (\<lambda>e. classOf e = Html) es of None \<Rightarrow> [] | Some h \<Rightarrow> [htmlItem h]) =
        (case earliestHtml es of None \<Rightarrow> [] | Some h \<Rightarrow> [htmlItem h])"
    proof (cases "find (\<lambda>e. classOf e = Html) es")
      case None
      then show ?thesis by (simp add: earliestHtml_None)
    next
      case (Some h)
      with side have "\<forall>e\<in>set es. classOf e = Html \<longrightarrow> startedDateTime h \<le> startedDateTime e"
        by blast
      with Some have "earliestHtml es = Some h" by (rule earliestHtml_first)
      with Some show ?thesis by simp
    qed
    have noHtml: "\<not> isCriticalResource e" if "e \<in> set es" "classOf e = Html" for e
    proof -
      from that have "find (\<lambda>e. classOf e = Html) es \<noteq> None" by (auto simp: find_None_iff)
      then obtain h where "find (\<lambda>e. classOf e = Html) es = Some h" by auto
      with side that show ?thesis by blast
    qed
    have "filter isCriticalResource es =
        filter (\<lambda>e. (classOf e = Css \<or> classOf e = Js) \<and> urlNotExcluded e) es"
    proof (rule filter_cong [OF refl])
      fix e assume e: "e \<in> set es"
      show "isCriticalResource e = ((classOf e = Css \<or> classOf e = Js) \<and> urlNotExcluded e)"
        using noHtml [OF e] isCriticalResource_classOf [of e] isCriticalResource_Css_Js [of e]
        by blast
    qed
    with first show ?thesis by (simp add: items specCriticalPath_def)
  qed
  from items spec isCriticalResource_Css_Js isCriticalResource_classOf show ?thesis by blast
qed

text \<open>
  A page load in the order of the start timestamps: the document, then the stylesheet of
  30 ms and the script of 40 ms; the analytics script is left out.
\<close>

theorem C5_critical_path_first_html_witness:
  "performAnalysis 100000 pageLoad initialReport = Inr (analysisResult pageLoad initialReport) \<and>
   map (\<lambda>i. (cp_type i, cp_url i, cp_time i))
     (criticalPathItems (analysisResult pageLoad initialReport)) =
     [(''HTML Document'', ''http://h.test/...'', 50),
      (''Critical CSS'', ''http://h.test/main.css...'', 30),
      (''Critical JS'', ''http://h.test/app.js...'', 40)] \<and>
   criticalPathItems (analysisResult pageLoad initialReport) = specCriticalPath pageLoad"
proof -
  have h: "performAnalysis 100000 pageLoad initialReport = Inr (analysisResult pageLoad initialReport)"
    by (rule performAnalysis_eq) (simp_all add: pageLoad_def)
  have side: "\<forall>h e. find (\<lambda>e. classOf e = Html) pageLoad = Some h \<and> e \<in> set pageLoad \<and>
      classOf e = Html \<longrightarrow> startedDateTime h \<le> startedDateTime e \<and> \<not> isCriticalResource e"
    by (auto simp: pageLoad_def request_def classOf_def categorize_def contentTypeOf_def
        isCriticalResource_def)
  have ev: "map_sum id (\<lambda>r. map (\<lambda>i. (cp_type i, cp_url i, cp_time i)) (criticalPathItems r))
      (performAnalysis 100000 pageLoad initialReport) =
      Inr [(''HTML Document'', ''http://h.test/...'', 50),
           (''Critical CSS'', ''http://h.test/main.css...'', 30),
           (''Critical JS'', ''http://h.test/app.js...'', 40)]"
    by (simp add: pageLoad_def analysis_defs)
  from C5_critical_path_first_html [OF h] side
  have "criticalPathItems (analysisResult pageLoad initialReport) = specCriticalPath pageLoad"
    by blast
  with ev h show ?thesis by simp
qed

text \<open>
  C5, as stated, puts the html record with the smallest start first and takes the
  records of class css or js after it. With the later document listed first the critical
  path holds that later document; and a document whose mime type also names
  \<^verbatim>\<open>javascript\<close> is listed a second time, as a critical script.
\<close>

theorem C5_earliest_html_counterexample:
  "map_sum id (\<lambda>r. map cp_url (criticalPathItems r))
     (performAnalysis 100000 twoDocuments initialReport) = Inr [''http://h.test/b...''] \<and>
   map cp_url (specCriticalPath twoDocuments) = [''http://h.test/a...''] \<and>
   map_sum id (\<lambda>r. map cp_type (criticalPathItems r))
     (performAnalysis 100000 scriptedDocument initialReport) =
     Inr [''HTML Document'', ''Critical JS''] \<and>
   map cp_type (specCriticalPath scriptedDocument) = [''HTML Document'']"
proof -
  have "map_sum id (\<lambda>r. map cp_url (criticalPathItems r))
      (performAnalysis 100000 twoDocuments initialReport) = Inr [''http://h.test/b...'']"
    by (simp add: twoDocuments_def analysis_defs)
  moreover have "map cp_url (specCriticalPath twoDocuments) = [''http://h.test/a...'']"
    by (simp add: twoDocuments_def specCriticalPath_def earliestHtml_def classOf_def htmlItem_def
        request_def categorize_def contentTypeOf_def)
  moreover have "map_sum id (\<lambda>r. map cp_type (criticalPathItems r))
      (performAnalysis 100000 scriptedDocument initialReport) = Inr [''HTML Document'', ''Critical JS'']"
    by (simp add: scriptedDocument_def analysis_defs)
  moreover have "map cp_type (specCriticalPath scriptedDocument) = [''HTML Document'']"
    by (simp add: scriptedDocument_def specCriticalPath_def earliestHtml_def classOf_def
        htmlItem_def request_def categorize_def contentTypeOf_def)
  ultimately show ?thesis by (intro conjI)
qed

subsection \<open>The loading-strategy recommendation\<close>

lemma generateOptimizationPlan_fields:
  "performanceGaps (generateOptimizationPlan r) = performanceGaps r"
  "totalLoadTime (generateOptimizationPlan r) = totalLoadTime r"
  by (simp_all add: generateOptimizationPlan_def Let_def)

lemma generateOptimizationPlan_split:
  "\<exists>before after.
     optimizations (generateOptimizationPlan r) =
       before @ (if performanceGaps r \<noteq> [] then [loadingStrategy] else []) @ after \<and>
     (\<forall>x\<in>set before. opt_category x \<in> {''Images'', ''File Size'', ''Network''}) \<and>
     (\<forall>x\<in>set after. opt_category x = ''Overall Performance'')"
proof -
  define o3 where "o3 =
    (if length (filter (\<lambda>b. b_type b = Image) (bottlenecks r)) > 0
     then [\<lparr>opt_priority = ''HIGH'', opt_category = ''Images'',
            opt_suggestion =
              [Str ''Convert images to WebP format and implement responsive sizing''],
            opt_impact = ''Could save 60-80% on image file sizes'',
            opt_action = ''Run the WebP converter script''\<rparr>]
     else []) @
    (if length (filter (\<lambda>b. b_issue b = ''Large file size'') (bottlenecks r)) > 0
     then [\<lparr>opt_priority = ''HIGH'', opt_category = ''File Size'',
            opt_suggestion = [Str ''Compress and optimize large files''],
            opt_impact = ''Reduce bandwidth usage by 50-70%'',
            opt_action = ''Implement gzip/brotli compression''\<rparr>]
     else []) @
    (if length (filter (\<lambda>b. b_issue b = ''Slow request'') (bottlenecks r)) > 0
     then [\<lparr>opt_priority = ''MEDIUM'', opt_category = ''Network'',
            opt_suggestion = [Str ''Optimize slow requests with caching and CDN''],
            opt_impact = ''Reduce request times by 40-60%'',
            opt_action = ''Implement proper caching headers and CDN''\<rparr>]
     else [])"
  define o5 where "o5 =
    (if totalLoadTime r > targetLoadTime
     then [\<lparr>opt_priority = ''CRITICAL'', opt_category = ''Overall Performance'',
            opt_suggestion =
              [Str ''Total load time is '', Num (real_of_int (Math_round (totalLoadTime r))),
               Str ''ms, target is '', Num targetLoadTime, Str ''ms''],
            opt_impact = ''Critical for user experience'',
            opt_action = ''Implement all high-priority optimizations immediately''\<rparr>]
     else [])"
  have "optimizations (generateOptimizationPlan r) =
      o3 @ (if performanceGaps r \<noteq> [] then [loadingStrategy] else []) @ o5"
    by (simp add: generateOptimizationPlan_def Let_def o3_def o5_def)
  moreover have "\<forall>x\<in>set o3. opt_category x \<in> {''Images'', ''File Size'', ''Network''}"
    unfolding o3_def by (simp only: set_append Ball_def Un_iff)
      (auto split: if_splits)
  moreover have "\<forall>x\<in>set o5. opt_category x = ''Overall Performance''"
    by (simp add: o5_def)
  ultimately show ?thesis by blast
qed

lemma generateOptimizationPlan_loadingStrategy:
  "(\<exists>x\<in>set (optimizations (generateOptimizationPlan r)).
      opt_category x = ''Loading Strategy'') \<longleftrightarrow> performanceGaps r \<noteq> []"
proof -
  have ne: "''Loading Strategy'' \<notin> {''Images'', ''File Size'', ''Network''}"
    "''Overall Performance'' \<noteq> ''Loading Strategy''" by simp_all
  have c: "opt_category loadingStrategy = ''Loading Strategy''" by (simp add: loadingStrategy_def)
  from generateOptimizationPlan_split [of r] obtain before after where
    o: "optimizations (generateOptimizationPlan r) =
       before @ (if performanceGaps r \<noteq> [] then [loadingStrategy] else []) @ after"
    and b: "\<forall>x\<in>set before. opt_category x \<in> {''Images'', ''File Size'', ''Network''}"
    and a: "\<forall>x\<in>set after. opt_category x = ''Overall Performance''"
    by blast
  from b ne have b': "\<forall>x\<in>set before. opt_category x \<noteq> ''Loading Strategy''" by metis
  from a ne have a': "\<forall>x\<in>set after. opt_category x \<noteq> ''Loading Strategy''" by metis
  show ?thesis unfolding o using a' b' c by (cases "performanceGaps r = []") auto
qed

lemma generateOptimizationPlan_medium:
  assumes "x \<in> set (optimizations (generateOptimizationPlan r))"
    and "opt_category x = ''Loading Strategy''"
  shows "x = loadingStrategy"
proof -
  have ne: "''Loading Strategy'' \<notin> {''Images'', ''File Size'', ''Network''}"
    "''Overall Performance'' \<noteq> ''Loading Strategy''" by simp_all
  from generateOptimizationPlan_split [of r] obtain before after where
    o: "optimizations (generateOptimizationPlan r) =
       before @ (if performanceGaps r \<noteq> [] then [loadingStrategy] else []) @ after"
    and b: "\<forall>x\<in>set before. opt_category x \<in> {''Images'', ''File Size'', ''Network''}"
    and a: "\<forall>x\<in>set after. opt_category x = ''Overall Performance''"
    by blast
  from b ne assms(2) have "x \<notin> set before" by metis
  moreover from a ne assms(2) have "x \<notin> set after" by metis
  ultimately show ?thesis using assms(1) unfolding o by (auto split: if_splits)
qed

lemma generateOptimizationPlan_once:
  "length (filter (\<lambda>x. opt_category x = ''Loading Strategy'')
     (optimizations (generateOptimizationPlan r))) \<le> 1"
proof -
  have ne: "''Loading Strategy'' \<notin> {''Images'', ''File Size'', ''Network''}"
    "''Overall Performance'' \<noteq> ''Loading Strategy''" by simp_all
  from generateOptimizationPlan_split [of r] obtain before after where
    o: "optimizations (generateOptimizationPlan r) =
       before @ (if performanceGaps r \<noteq> [] then [loadingStrategy] else []) @ after"
    and b: "\<forall>x\<in>set before. opt_category x \<in> {''Images'', ''File Size'', ''Network''}"
    and a: "\<forall>x\<in>set after. opt_category x = ''Overall Performance''"
    by blast
  from b ne have "filter (\<lambda>x. opt_category x = ''Loading Strategy'') before = []"
    by (intro filter_False) metis
  moreover from a ne have "filter (\<lambda>x. opt_category x = ''Loading Strategy'') after = []"
    by (intro filter_False) metis
  ultimately show ?thesis unfolding o by simp
qed

lemma performanceGaps_nonempty_iff:
  "performanceGaps (analysisResult es initialReport) \<noteq> [] \<longleftrightarrow>
     (\<exists>g\<in>set (performanceGaps (analysisResult es initialReport)). is_Gap g) \<or>
     targetLoadTime < totalLoadTime (analysisResult es initialReport)"
proof -
  define ts where "ts = sort_key tl_start (map (timelineOf (startedDateTime (hd es))) es)"
  define t where "t = totalLoadTime (analysisResult es initialReport)"
  have g: "performanceGaps (analysisResult es initialReport) = timelineGaps ts @ targetExceeded t"
    by (simp add: performanceGaps_result ts_def t_def)
  have a: "(\<exists>g\<in>set (timelineGaps ts @ targetExceeded t). is_Gap g) \<longleftrightarrow> timelineGaps ts \<noteq> []"
    using is_Gap_timelineGaps [of _ ts] not_is_Gap_targetExceeded [of _ t]
    by (cases "timelineGaps ts") auto
  have b: "targetExceeded t \<noteq> [] \<longleftrightarrow> targetLoadTime < t"
    by (simp add: targetExceeded_def)
  show ?thesis unfolding g t_def [symmetric] using a b by auto
qed

text \<open>
  C6, as the code has it. The recommendation of the category \<^verbatim>\<open>Loading Strategy\<close> is
  emitted exactly when \<^verbatim>\<open>performanceGaps\<close> is not empty, that is when the timeline has a gap
  or the total load time exceeds the target: the target-exceeded finding is pushed onto
  the same list and counts in its length. The recommendation is emitted once and has the
  priority \<^verbatim>\<open>MEDIUM\<close>.
\<close>

theorem C6_loading_strategy:
  assumes "analyzeHARFile maxArgs es = Inr r'"
  shows "((\<exists>x\<in>set (optimizations r'). opt_category x = ''Loading Strategy'') \<longleftrightarrow>
            performanceGaps r' \<noteq> []) \<and>
         (performanceGaps r' \<noteq> [] \<longleftrightarrow>
            (\<exists>g\<in>set (performanceGaps r'). is_Gap g) \<or> targetLoadTime < totalLoadTime r') \<and>
         (\<forall>x\<in>set (optimizations r'). opt_category x = ''Loading Strategy'' \<longrightarrow>
            x = loadingStrategy \<and> opt_priority x = ''MEDIUM'') \<and>
         length (filter (\<lambda>x. opt_category x = ''Loading Strategy'') (optimizations r')) \<le> 1"
proof -
  from assms obtain r where run: "performAnalysis maxArgs es initialReport = Inr r"
    and r': "r' = generateOptimizationPlan r"
    by (auto simp: analyzeHARFile_def split: sum.splits)
  from run have r: "r = analysisResult es initialReport"
    by (simp add: performAnalysis_InrD)
  have 1: "(\<exists>x\<in>set (optimizations r'). opt_category x = ''Loading Strategy'') \<longleftrightarrow>
      performanceGaps r' \<noteq> []"
    by (simp only: r' generateOptimizationPlan_loadingStrategy generateOptimizationPlan_fields)
  have 2: "performanceGaps r' \<noteq> [] \<longleftrightarrow>
      (\<exists>g\<in>set (performanceGaps r'). is_Gap g) \<or> targetLoadTime < totalLoadTime r'"
    by (simp only: r' r generateOptimizationPlan_fields performanceGaps_nonempty_iff)
  have 3: "x = loadingStrategy \<and> opt_priority x = ''MEDIUM''"
    if "x \<in> set (optimizations r')" "opt_category x = ''Loading Strategy''" for x
    using that generateOptimizationPlan_medium [of x r]
    by (auto simp: r' loadingStrategy_def)
  have 4: "length (filter (\<lambda>x. opt_category x = ''Loading Strategy'') (optimizations r')) \<le> 1"
    unfolding r' by (rule generateOptimizationPlan_once)
  from 1 2 3 4 show ?thesis by blast
qed

text \<open>
  Scenario B has a gap of the timeline, and the recommendation is emitted; a single
  request of 1 ms has no gap and stays below the target, and nothing is recommended.
\<close>

theorem C6_loading_strategy_witness:
  "map_sum id (\<lambda>r. (map is_Gap (performanceGaps r), map opt_category (optimizations r)))
     (analyzeHARFile 100000 scenarioB) =
     Inr ([True, False], [''Loading Strategy'', ''Overall Performance'']) \<and>
   map_sum id (\<lambda>r. (performanceGaps r, optimizations r)) (analyzeHARFile 100000 quickRequest) =
     Inr ([], []) \<and>
   (\<exists>r'. analyzeHARFile 100000 scenarioB = Inr r' \<and> performanceGaps r' \<noteq> [] \<and>
      (\<exists>x\<in>set (optimizations r'). opt_category x = ''Loading Strategy''))"
proof -
  have b: "map_sum id (\<lambda>r. (map is_Gap (performanceGaps r), map opt_category (optimizations r)))
      (analyzeHARFile 100000 scenarioB) =
      Inr ([True, False], [''Loading Strategy'', ''Overall Performance''])"
    by (simp add: scenarioB_def loadingStrategy_def analysis_defs)
  have q: "map_sum id (\<lambda>r. (performanceGaps r, optimizations r)) (analyzeHARFile 100000 quickRequest) =
      Inr ([], [])"
    by (simp add: quickRequest_def loadingStrategy_def analysis_defs)
  from b obtain r' where h: "analyzeHARFile 100000 scenarioB = Inr r'"
    and g: "map is_Gap (performanceGaps r') = [True, False]"
    by (cases "analyzeHARFile 100000 scenarioB") auto
  from g have "performanceGaps r' \<noteq> []" by auto
  with C6_loading_strategy [OF h] h
  have "\<exists>r'. analyzeHARFile 100000 scenarioB = Inr r' \<and> performanceGaps r' \<noteq> [] \<and>
      (\<exists>x\<in>set (optimizations r'). opt_category x = ''Loading Strategy'')"
    by blast
  with b q show ?thesis by (intro conjI)
qed

text \<open>
  C6, as stated, ties the recommendation to a gap of the timeline alone. A single request
  of 10 ms has no neighbour and so no gap, and the recommendation is emitted all the
  same, for the target-exceeded finding.
\<close>

theorem C6_timeline_gap_only_counterexample:
  "map_sum id
     (\<lambda>r. (filter is_Gap (performanceGaps r), length (performanceGaps r),
            map (\<lambda>x. (opt_priority x, opt_category x)) (optimizations r)))
     (analyzeHARFile 100000 singleRequest) =
   Inr ([], 1, [(''MEDIUM'', ''Loading Strategy''), (''CRITICAL'', ''Overall Performance'')])"
  by (simp add: singleRequest_def loadingStrategy_def analysis_defs)

subsection \<open>The resource class\<close>

lemma includesStr_sublist: "includesStr s t \<longleftrightarrow> sublist t s"
  by (induction s) (simp_all add: sublist_Cons_right)

lemma analyzeRequest_other_class:
  "c \<noteq> classOf e \<Longrightarrow> resourceBreakdown (analyzeRequest e st r) c = resourceBreakdown r c"
  by (simp add: analyzeRequest_eq)

lemma analyzeRequest_own_class:
  "resourceBreakdown (analyzeRequest e st r) (classOf e) =
     Some (addRequest e (resourceBreakdown r (classOf e)))"
  by (simp add: analyzeRequest_eq)

lemma requestBottlenecks_class:
  "b \<in> set (requestBottlenecks st e) \<Longrightarrow>
   b_type b = categorize (contentTypeOf e) \<and>
   b_startTime b = real_of_int (startedDateTime e - st)"
  by (auto simp: requestBottlenecks_def mkBottleneck_def classOf_def split: if_splits)

text \<open>
  C7. The class is a function of the mime type alone, decided by the first marker that
  occurs in it as a substring, in the order \<^verbatim>\<open>text/html\<close>, \<^verbatim>\<open>text/css\<close>, \<^verbatim>\<open>javascript\<close>,
  \<^verbatim>\<open>image/\<close>, \<^verbatim>\<open>font/\<close>; with none of them, as for the empty or a missing mime type, it is
  \<^verbatim>\<open>other\<close>. The entries that \<^verbatim>\<open>analyzeRequest\<close> pushes for a record carry this class and
  the start offset of the record and do not depend on the report so far, so a second run
  on the same record pushes the same entries again and updates the breakdown of the same
  class.
\<close>

theorem C7_resource_class_priority:
  "(includesStr ct marker \<longleftrightarrow> sublist marker ct) \<and>
   (categorize ct = Html \<longleftrightarrow> includesStr ct ''text/html'') \<and>
   (categorize ct = Css \<longleftrightarrow>
      \<not> includesStr ct ''text/html'' \<and> includesStr ct ''text/css'') \<and>
   (categorize ct = Js \<longleftrightarrow>
      \<not> includesStr ct ''text/html'' \<and> \<not> includesStr ct ''text/css'' \<and>
      includesStr ct ''javascript'') \<and>
   (categorize ct = Image \<longleftrightarrow>
      \<not> includesStr ct ''text/html'' \<and> \<not> includesStr ct ''text/css'' \<and>
      \<not> includesStr ct ''javascript'' \<and> includesStr ct ''image/'') \<and>
   (categorize ct = Font \<longleftrightarrow>
      \<not> includesStr ct ''text/html'' \<and> \<not> includesStr ct ''text/css'' \<and>
      \<not> includesStr ct ''javascript'' \<and> \<not> includesStr ct ''image/'' \<and>
      includesStr ct ''font/'') \<and>
   (categorize ct = Other \<longleftrightarrow>
      \<not> includesStr ct ''text/html'' \<and> \<not> includesStr ct ''text/css'' \<and>
      \<not> includesStr ct ''javascript'' \<and> \<not> includesStr ct ''image/'' \<and>
      \<not> includesStr ct ''font/'') \<and>
   categorize [] = Other \<and>
   (content_mimeType e = None \<longrightarrow> categorize (contentTypeOf e) = Other) \<and>
   bottlenecks (analyzeRequest e st r) = bottlenecks r @ requestBottlenecks st e \<and>
   bottlenecks (analyzeRequest e st (analyzeRequest e st r)) =
     bottlenecks r @ requestBottlenecks st e @ requestBottlenecks st e \<and>
   (\<forall>b\<in>set (requestBottlenecks st e).
      b_type b = categorize (contentTypeOf e) \<and>
      b_startTime b = real_of_int (startedDateTime e - st)) \<and>
   resourceBreakdown (analyzeRequest e st r) (categorize (contentTypeOf e)) \<noteq> None \<and>
   (\<forall>c. c \<noteq> categorize (contentTypeOf e) \<longrightarrow>
      resourceBreakdown (analyzeRequest e st (analyzeRequest e st r)) c = resourceBreakdown r c)"
proof -
  have cls: "categorize (contentTypeOf e) = classOf e" by (simp add: classOf_def)
  have 1: "includesStr ct marker \<longleftrightarrow> sublist marker ct" by (rule includesStr_sublist)
  have 2: "categorize ct = Html \<longleftrightarrow> includesStr ct ''text/html''"
    by (simp add: categorize_def)
  have 3: "categorize ct = Css \<longleftrightarrow>
      \<not> includesStr ct ''text/html'' \<and> includesStr ct ''text/css''"
    by (simp add: categorize_def)
  have 4: "categorize ct = Js \<longleftrightarrow>
      \<not> includesStr ct ''text/html'' \<and> \<not> includesStr ct ''text/css'' \<and>
      includesStr ct ''javascript''"
    by (simp add: categorize_def)
  have 5: "categorize ct = Image \<longleftrightarrow>
      \<not> includesStr ct ''text/html'' \<and> \<not> includesStr ct ''text/css'' \<and>
      \<not> includesStr ct ''javascript'' \<and> includesStr ct ''image/''"
    by (simp add: categorize_def)
  have 6: "categorize ct = Font \<longleftrightarrow>
      \<not> includesStr ct ''text/html'' \<and> \<not> includesStr ct ''text/css'' \<and>
      \<not> includesStr ct ''javascript'' \<and> \<not> includesStr ct ''image/'' \<and>
      includesStr ct ''font/''"
    by (simp add: categorize_def)
  have 7: "categorize ct = Other \<longleftrightarrow>
      \<not> includesStr ct ''text/html'' \<and> \<not> includesStr ct ''text/css'' \<and>
      \<not> includesStr ct ''javascript'' \<and> \<not> includesStr ct ''image/'' \<and>
      \<not> includesStr ct ''font/''"
    by (simp add: categorize_def)
  have 8: "categorize [] = Other" by (simp add: categorize_def)
  have 9: "content_mimeType e = None \<longrightarrow> categorize (contentTypeOf e) = Other"
    by (simp add: contentTypeOf_def categorize_def)
  have 10: "bottlenecks (analyzeRequest e st r) = bottlenecks r @ requestBottlenecks st e"
    by (simp add: analyzeRequest_eq)
  have 11: "bottlenecks (analyzeRequest e st (analyzeRequest e st r)) =
      bottlenecks r @ requestBottlenecks st e @ requestBottlenecks st e"
    by (simp add: analyzeRequest_eq)
  have 12: "\<forall>b\<in>set (requestBottlenecks st e).
      b_type b = categorize (contentTypeOf e) \<and>
      b_startTime b = real_of_int (startedDateTime e - st)"
    using requestBottlenecks_class by blast
  have 13: "resourceBreakdown (analyzeRequest e st r) (categorize (contentTypeOf e)) \<noteq> None"
    by (simp add: cls analyzeRequest_own_class)
  have 14: "\<forall>c. c \<noteq> categorize (contentTypeOf e) \<longrightarrow>
      resourceBreakdown (analyzeRequest e st (analyzeRequest e st r)) c = resourceBreakdown r c"
    by (simp add: cls analyzeRequest_other_class)
  from 1 2 3 4 5 6 7 8 9 10 11 12 13 14 show ?thesis by (intro conjI)
qed

text \<open>
  A script served as \<^verbatim>\<open>application/javascript\<close>, 150 ms long, starting 10 ms after the
  origin, and a record without a mime type.
\<close>

theorem C7_resource_class_priority_witness:
  "categorize ''application/javascript'' = Js \<and>
   categorize ''text/html; charset=utf-8'' = Html \<and>
   categorize ''image/svg+xml'' = Image \<and>
   categorize ''application/json'' = Other \<and>
   content_mimeType ((request 10 150 ''http://h.test/app.js'' [] 100)\<lparr>content_mimeType := None\<rparr>) =
     None \<and>
   categorize (contentTypeOf
     ((request 10 150 ''http://h.test/app.js'' [] 100)\<lparr>content_mimeType := None\<rparr>)) = Other \<and>
   map (\<lambda>b. (b_type b, b_startTime b))
     (bottlenecks
        (analyzeRequest (request 10 150 ''http://h.test/app.js'' ''application/javascript'' 100) 0
           (analyzeRequest (request 10 150 ''http://h.test/app.js'' ''application/javascript'' 100) 0
              initialReport))) =
     [(Js, 10), (Js, 10)]"
proof -
  define e where "e = request 10 150 ''http://h.test/app.js'' ''application/javascript'' 100"
  define e0 where "e0 = (request 10 150 ''http://h.test/app.js'' [] 100)\<lparr>content_mimeType := None\<rparr>"
  have n: "content_mimeType e0 = None" by (simp add: e0_def)
  have rb: "map (\<lambda>b. (b_type b, b_startTime b)) (requestBottlenecks 0 e) = [(Js, 10)]"
    by (simp add: e_def requestBottlenecks_def mkBottleneck_def classOf_def request_def
        categorize_def contentTypeOf_def sizeOf_def)
  note js = C7_resource_class_priority [of "''application/javascript''" "''javascript''" e 0 initialReport]
  note html = C7_resource_class_priority [of "''text/html; charset=utf-8''" "''text/html''" e 0 initialReport]
  note image = C7_resource_class_priority [of "''image/svg+xml''" "''image/''" e 0 initialReport]
  note other = C7_resource_class_priority [of "''application/json''" "''font/''" e0 0 initialReport]
  have "categorize ''application/javascript'' = Js" using js by simp
  moreover have "categorize ''text/html; charset=utf-8'' = Html" using html by simp
  moreover have "categorize ''image/svg+xml'' = Image" using image by simp
  moreover have "categorize ''application/json'' = Other" using other by simp
  moreover have "categorize (contentTypeOf e0) = Other" using other n by blast
  moreover have "map (\<lambda>b. (b_type b, b_startTime b))
      (bottlenecks (analyzeRequest e 0 (analyzeRequest e 0 initialReport))) = [(Js, 10), (Js, 10)]"
    using js rb by (simp add: initialReport_def)
  ultimately show ?thesis using n unfolding e_def e0_def by (intro conjI)
qed

end
